theory Spec2Isabelle
  imports Main "HOL-Library.Sublist" "HOL-Library.AList" "HOL-Library.Word"
begin

section \<open>The file service: data model\<close>

text \<open>
  The development follows \<^verbatim>\<open>FileService\<close> (the virtual filesystem service). Every
  asynchronous method is modelled by its sequential meaning: a function from the state of
  the world before the call to the outcome (an error or a value) and the state after it.
  A rejected promise or a thrown error is the \<open>Inl\<close> outcome; effects that happened before
  the error stay in the returned state. JavaScript numbers that hold timestamps, sizes,
  offsets and counters are modelled as unbounded integers.
\<close>

subsection \<open>Resources\<close>

record uri =
  scheme :: string
  authority :: string
  path :: string
  query :: string
  fragment :: string

text \<open>
  Modelled from the spec: \<^verbatim>\<open>URI.toString\<close> and \<^verbatim>\<open>isAbsolutePath\<close> belong to
  \<^verbatim>\<open>vs/base/common/uri\<close> and \<^verbatim>\<open>vs/base/common/resources\<close>, which are not part of the
  sources at hand. The spec gives the string form as \<^verbatim>\<open>scheme://authority/path\<close> (the path
  carries its leading slash) and asks for an absolute path in \<^verbatim>\<open>withProvider\<close>.
\<close>

definition uri_toString :: "uri \<Rightarrow> string" where
  "uri_toString u =
     scheme u @ ''://'' @ authority u @ path u @
     (if query u = [] then [] else CHR ''?'' # query u) @
     (if fragment u = [] then [] else CHR ''#'' # fragment u)"

definition isAbsolutePath :: "uri \<Rightarrow> bool" where
  "isAbsolutePath u = (case path u of [] \<Rightarrow> False | c # _ \<Rightarrow> c = CHR ''/'')"

subsection \<open>Errors\<close>

text \<open>
  Modelled from the spec: the enumerations \<^verbatim>\<open>FileOperationResult\<close> and
  \<^verbatim>\<open>FileSystemProviderErrorCode\<close> are declared in \<^verbatim>\<open>vs/platform/files/common/files\<close>,
  which is not part of the sources at hand. The result codes are those of the error
  taxonomy of the spec; of the provider error codes the service names \<open>FileNotFound\<close>, and
  \<open>Unknown\<close> is the code of an error that is not an error of a provider.
\<close>

datatype FileOperationResult =
    FILE_NOT_FOUND
  | FILE_IS_DIRECTORY
  | FILE_NOT_DIRECTORY
  | FILE_MODIFIED_SINCE
  | FILE_MOVE_CONFLICT
  | FILE_TOO_LARGE
  | FILE_EXCEEDS_MEMORY_LIMIT
  | FILE_PERMISSION_DENIED
  | FILE_NOT_MODIFIED_SINCE
  | FILE_INVALID_PATH

datatype FileSystemProviderErrorCode =
    FileExists
  | FileNotFound
  | FileNotADirectory
  | FileIsADirectory
  | NoPermissions
  | Unavailable
  | Unknown

text \<open>
  The three kinds of error the service handles: its own \<^verbatim>\<open>FileOperationError\<close> with a
  result code, an error of a provider with a provider error code, and a plain
  \<^verbatim>\<open>Error\<close> identified by the localisation key or name the source gives it.
\<close>

datatype error =
    FileOperationError FileOperationResult
  | FileSystemProviderError FileSystemProviderErrorCode
  | Error string

type_synonym ('a, 'w) io = "'w \<Rightarrow> (error + 'a) \<times> 'w"

definition return_io :: "'a \<Rightarrow> ('a, 'w) io" where
  "return_io x w = (Inr x, w)"

definition throw_io :: "error \<Rightarrow> ('a, 'w) io" where
  "throw_io e w = (Inl e, w)"

text \<open>Sequencing of two awaited steps: an error of the first skips the second.\<close>

definition bind_io :: "('a, 'w) io \<Rightarrow> ('a \<Rightarrow> ('b, 'w) io) \<Rightarrow> ('b, 'w) io" where
  "bind_io m f w = (case m w of (Inl e, w') \<Rightarrow> (Inl e, w') | (Inr x, w') \<Rightarrow> f x w')"

subsection \<open>Providers\<close>

text \<open>
  Modelled from the spec: the enumerations \<^verbatim>\<open>FileSystemProviderCapabilities\<close> and
  \<^verbatim>\<open>FileType\<close> are declared in \<^verbatim>\<open>vs/platform/files/common/files\<close>, which is not
  part of the sources at hand. The spec describes both as bitsets of independent flags; a
  bitset is modelled as the set of its flags, and the test \<^verbatim>\<open>(bits & Flag) !== 0\<close> as
  membership.
\<close>

datatype FileSystemProviderCapabilities =
    FileReadWrite
  | FileOpenReadWriteClose
  | FileReadStream
  | FileFolderCopy
  | PathCaseSensitive
  | Readonly
  | Trash

datatype FileType = File | Directory | SymbolicLink

text \<open>
  \<^verbatim>\<open>IStat\<close>. The source tests \<^verbatim>\<open>typeof stat.mtime === 'number'\<close>, so a field that is
  not a number is \<open>None\<close>.
\<close>

record IStat =
  stat_type :: "FileType set"
  stat_mtime :: "int option"
  stat_ctime :: "int option"
  stat_size :: "int option"

text \<open>
  A provider, as far as the service calls it. \<open>ident\<close> stands for the identity of the
  provider object, which the source compares with \<^verbatim>\<open>===\<close>. \<open>delete'\<close> takes the
  resource and the options \<^verbatim>\<open>recursive\<close> and \<^verbatim>\<open>useTrash\<close>; \<open>rename\<close> and \<open>copy\<close> take
  source, target and \<^verbatim>\<open>overwrite\<close>.
\<close>

record 'w IFileSystemProvider =
  ident :: nat
  capabilities :: "FileSystemProviderCapabilities set"
  stat :: "uri \<Rightarrow> (IStat, 'w) io"
  readdir :: "uri \<Rightarrow> ((string \<times> FileType set) list, 'w) io"
  mkdir :: "uri \<Rightarrow> (unit, 'w) io"
  delete' :: "uri \<Rightarrow> bool \<Rightarrow> bool \<Rightarrow> (unit, 'w) io"
  rename :: "uri \<Rightarrow> uri \<Rightarrow> bool \<Rightarrow> (unit, 'w) io"
  copy :: "uri \<Rightarrow> uri \<Rightarrow> bool \<Rightarrow> (unit, 'w) io"
  readFile :: "uri \<Rightarrow> (8 word list, 'w) io"

subsection \<open>File stats and events\<close>

datatype IFileStat = IFileStat
  (fs_resource: uri) (fs_name: string)
  (fs_isFile: bool) (fs_isDirectory: bool) (fs_isSymbolicLink: bool)
  (fs_mtime: "int option") (fs_ctime: "int option") (fs_size: "int option")
  (fs_etag: "string option") (fs_children: "IFileStat list option")

datatype FileOperation = CREATE | DELETE | MOVE | COPY

datatype FileOperationEvent = FileOperationEvent uri FileOperation "IFileStat option"

subsection \<open>Watching: options, disposables and table entries\<close>

record IWatchOptions =
  recursive :: bool
  excludes :: "string list"

text \<open>
  The disposables of the watch code are closures. Each is represented by the data it
  captures: \<open>WatcherUnref r key\<close> is the closure \<^verbatim>\<open>doWatch\<close> returns (it captures the
  entry object \<^verbatim>\<open>watcher\<close>, here a reference \<open>r\<close> into the store of entry objects, and
  \<^verbatim>\<open>key\<close>); \<open>SetWatchDisposed c\<close> is the initial \<^verbatim>\<open>watchDisposable\<close> of the
  \<^verbatim>\<open>watch\<close> call number \<open>c\<close>, which sets that call's \<^verbatim>\<open>watchDisposed\<close>.
\<close>

datatype IDisposable = WatcherUnref nat string | SetWatchDisposed nat

text \<open>
  An entry \<^verbatim>\<open>{ disposable, count }\<close> of \<^verbatim>\<open>activeWatchers\<close>. The disposable is the one
  \<^verbatim>\<open>provider.watch\<close> returned, identified by the position of that invocation in the log
  of invocations.
\<close>

record watcherEntry =
  w_disposable :: nat
  w_count :: int

text \<open>The two local variables of one \<^verbatim>\<open>watch\<close> call.\<close>

record watchCell =
  watchDisposed :: bool
  watchDisposable :: IDisposable

subsection \<open>The state of the service\<close>

type_synonym 'w registry = "string \<Rightarrow> 'w IFileSystemProvider option"

text \<open>
  \<open>providerMap\<close> is the map \<^verbatim>\<open>provider\<close> from scheme to provider and \<open>world\<close> the state
  the providers act on. The listeners of \<^verbatim>\<open>onWillActivateFileSystemProvider\<close> are given by what they do:
  \<open>fired\<close> is their synchronous effect on the registry when the event fires, \<open>joined\<close> the
  outcome of awaiting the promises they joined. \<open>onAfterOperation\<close> is the log of the
  events fired on that emitter. \<open>activeWatchers\<close> keeps the insertion order of the
  JavaScript map and refers to entry objects in \<open>watcherObjects\<close>;
  \<open>providerWatchCalls\<close> logs the invocations of \<^verbatim>\<open>provider.watch\<close> (provider identity,
  resource, options) and \<open>disposedWatches\<close> the disposals of the disposables they returned.
  \<open>watchCells\<close> holds the local variables of the \<^verbatim>\<open>watch\<close> calls made so far. An entry
  object and the variables of a call are referred to by their position in these lists; the
  lists only grow, so a reference that a closure holds stays in range.
\<close>

record 'w FileService =
  providerMap :: "'w registry"
  fired :: "string \<Rightarrow> 'w registry \<Rightarrow> 'w registry"
  joined :: "string \<Rightarrow> 'w registry \<Rightarrow> error + 'w registry"
  world :: 'w
  onAfterOperation :: "FileOperationEvent list"
  activeWatchers :: "(string \<times> nat) list"
  watcherObjects :: "watcherEntry list"
  providerWatchCalls :: "(nat \<times> uri \<times> IWatchOptions) list"
  disposedWatches :: "nat list"
  watchCells :: "watchCell list"

definition on_world :: "('a, 'w) io \<Rightarrow> ('a, 'w FileService) io" where
  "on_world m s = (case m (world s) of (r, w') \<Rightarrow> (r, s\<lparr>world := w'\<rparr>))"

section \<open>The provider registry\<close>

definition activateProvider :: "string \<Rightarrow> (unit, 'w FileService) io" where
  "activateProvider sch s =
     (let reg1 = fired s sch (providerMap s) in
      if reg1 sch \<noteq> None then (Inr (), s\<lparr>providerMap := reg1\<rparr>)
      else (case joined s sch reg1 of
              Inl e \<Rightarrow> (Inl e, s\<lparr>providerMap := reg1\<rparr>)
            | Inr reg2 \<Rightarrow> (Inr (), s\<lparr>providerMap := reg2\<rparr>)))"

definition withProvider :: "uri \<Rightarrow> ('w IFileSystemProvider, 'w FileService) io" where
  "withProvider resource =
     (if \<not> isAbsolutePath resource then throw_io (FileOperationError FILE_INVALID_PATH)
      else bind_io (activateProvider (scheme resource)) (\<lambda>_ s.
             case providerMap s (scheme resource) of
               None \<Rightarrow> (Inl (Error ''ENOPRO''), s)
             | Some p \<Rightarrow> (Inr p, s)))"

text \<open>
  Modelled from the spec: the capability probes of \<^verbatim>\<open>vs/platform/files/common/files\<close>
  (not at hand), which the spec describes as pure predicates over the capability bitset of
  a provider.
\<close>

definition hasReadWriteCapability :: "'w IFileSystemProvider \<Rightarrow> bool" where
  "hasReadWriteCapability p = (FileReadWrite \<in> capabilities p)"

definition hasOpenReadWriteCloseCapability :: "'w IFileSystemProvider \<Rightarrow> bool" where
  "hasOpenReadWriteCloseCapability p = (FileOpenReadWriteClose \<in> capabilities p)"

definition hasFileReadStreamCapability :: "'w IFileSystemProvider \<Rightarrow> bool" where
  "hasFileReadStreamCapability p = (FileReadStream \<in> capabilities p)"


definition withReadProvider :: "uri \<Rightarrow> ('w IFileSystemProvider, 'w FileService) io" where
  "withReadProvider resource =
     bind_io (withProvider resource) (\<lambda>p.
       if hasOpenReadWriteCloseCapability p \<or> hasReadWriteCapability p \<or>
          hasFileReadStreamCapability p
       then return_io p
       else throw_io (Error ''no read capability''))"


definition throwIfFileSystemIsReadonly ::
  "'w IFileSystemProvider \<Rightarrow> uri \<Rightarrow> ('w IFileSystemProvider, 's) io" where
  "throwIfFileSystemIsReadonly p resource =
     (if Readonly \<in> capabilities p then throw_io (FileOperationError FILE_PERMISSION_DENIED)
      else return_io p)"

section \<open>Resolving metadata: exists\<close>

text \<open>
  \<^verbatim>\<open>exists\<close>. The provider is resolved before the \<^verbatim>\<open>try\<close> block; only the call of
  \<^verbatim>\<open>provider.stat\<close> is inside it. A stat that the provider returns is an object, so
  \<^verbatim>\<open>!!stat\<close> is true.
\<close>

definition exists :: "uri \<Rightarrow> (bool, 'w FileService) io" where
  "exists resource =
     bind_io (withProvider resource) (\<lambda>p s.
       case on_world (stat p resource) s of
         (Inr st, s') \<Rightarrow> (Inr True, s')
       | (Inl e, s') \<Rightarrow> (Inr False, s'))"

section \<open>Writing: the dirty-write guard\<close>

record IWriteFileOptions =
  opt_mtime :: "int option"
  opt_etag :: "string option"

text \<open>
  \<^verbatim>\<open>validateWriteFile\<close>. The function \<^verbatim>\<open>etag\<close> and the constant \<^verbatim>\<open>ETAG_DISABLED\<close>
  are imported by the source from a file that is not at hand; they are parameters here, so
  every result below holds for each etag function. \<open>options\<close> is \<open>None\<close> when the caller
  passes no options.
\<close>

definition validateWriteFile ::
  "(int \<Rightarrow> int \<Rightarrow> string) \<Rightarrow> string \<Rightarrow> 'w IFileSystemProvider \<Rightarrow> uri \<Rightarrow>
     IWriteFileOptions option \<Rightarrow> (IStat option, 'w) io" where
  "validateWriteFile etag ETAG_DISABLED provider resource options w =
     (case stat provider resource w of
        (Inl e, w') \<Rightarrow> (Inr None, w')
      | (Inr st, w') \<Rightarrow>
          if Directory \<in> stat_type st
          then (Inl (FileOperationError FILE_IS_DIRECTORY), w')
          else if (case options of None \<Rightarrow> False | Some opts \<Rightarrow>
                   (case opt_mtime opts of None \<Rightarrow> False | Some om \<Rightarrow>
                   (case opt_etag opts of None \<Rightarrow> False | Some oe \<Rightarrow>
                      oe \<noteq> ETAG_DISABLED \<and>
                      (case stat_mtime st of None \<Rightarrow> False | Some sm \<Rightarrow>
                      (case stat_size st of None \<Rightarrow> False | Some ss \<Rightarrow>
                         om < sm \<and> oe \<noteq> etag om ss)))))
          then (Inl (FileOperationError FILE_MODIFIED_SINCE), w')
          else (Inr (Some st), w'))"

section \<open>Creating folders: mkdirp\<close>

text \<open>
  The path helpers \<^verbatim>\<open>dirname\<close>, \<^verbatim>\<open>basename\<close>, \<^verbatim>\<open>joinPath\<close>, \<^verbatim>\<open>isEqual\<close> and
  \<^verbatim>\<open>isEqualOrParent\<close> are imported from \<^verbatim>\<open>vs/base/common/resources\<close>, which is not
  part of the sources at hand. The functions of the service take them as a parameter. The
  last argument of \<open>isEqual\<close> is the optional \<^verbatim>\<open>ignoreCase\<close>.
\<close>

record resources =
  dirname :: "uri \<Rightarrow> uri"
  basename :: "uri \<Rightarrow> string"
  joinPath :: "uri \<Rightarrow> string \<Rightarrow> uri"
  isEqual :: "uri \<Rightarrow> uri \<Rightarrow> bool option \<Rightarrow> bool"
  isEqualOrParent :: "uri \<Rightarrow> uri \<Rightarrow> bool \<Rightarrow> bool"

text \<open>
  Modelled from the spec: \<^verbatim>\<open>toFileSystemProviderErrorCode\<close> (not at hand) normalises an
  error into a provider error code: the code of a provider error, \<open>Unknown\<close> for any other
  error.
\<close>

definition toFileSystemProviderErrorCode :: "error \<Rightarrow> FileSystemProviderErrorCode" where
  "toFileSystemProviderErrorCode e =
     (case e of FileSystemProviderError c \<Rightarrow> c | _ \<Rightarrow> Unknown)"

text \<open>
  The upward loop of \<^verbatim>\<open>mkdirp\<close>. It may run forever if \<^verbatim>\<open>dirname\<close> never reaches a
  directory that equals its own \<^verbatim>\<open>dirname\<close>, so its result is optional: \<open>None\<close> stands for
  a loop that does not end. The error thrown inside the \<^verbatim>\<open>try\<close> block for an existing
  non-directory is caught by the \<^verbatim>\<open>catch\<close> block, has code \<open>Unknown\<close> there and is thrown
  again. The loop returns the directory it stopped at and the basenames collected.
\<close>

partial_function (option) mkdirp_up ::
  "resources \<Rightarrow> 'w IFileSystemProvider \<Rightarrow> uri \<Rightarrow> string list \<Rightarrow> 'w \<Rightarrow>
     ((error + uri \<times> string list) \<times> 'w) option" where
  "mkdirp_up R provider directory directoriesToCreate w =
     (if isEqual R directory (dirname R directory) None
      then Some (Inr (directory, directoriesToCreate), w)
      else (case stat provider directory w of
              (Inr st, w') \<Rightarrow>
                 if Directory \<notin> stat_type st
                 then (if toFileSystemProviderErrorCode (Error ''mkdirExistsError'') \<noteq> FileNotFound
                       then Some (Inl (Error ''mkdirExistsError''), w')
                       else mkdirp_up R provider (dirname R directory)
                              (directoriesToCreate @ [basename R directory]) w')
                 else Some (Inr (directory, directoriesToCreate), w')
            | (Inl e, w') \<Rightarrow>
                 if toFileSystemProviderErrorCode e \<noteq> FileNotFound
                 then Some (Inl e, w')
                 else mkdirp_up R provider (dirname R directory)
                        (directoriesToCreate @ [basename R directory]) w'))"

declare mkdirp_up.simps [code]

text \<open>
  The downward loop, over the collected basenames from the last one to the first: the
  argument is the reversed list.
\<close>

fun mkdirp_down ::
  "resources \<Rightarrow> 'w IFileSystemProvider \<Rightarrow> uri \<Rightarrow> string list \<Rightarrow> (unit, 'w) io" where
  "mkdirp_down R provider directory [] = return_io ()"
| "mkdirp_down R provider directory (n # ns) =
     bind_io (mkdir provider (joinPath R directory n))
       (\<lambda>_. mkdirp_down R provider (joinPath R directory n) ns)"

definition mkdirp ::
  "resources \<Rightarrow> 'w IFileSystemProvider \<Rightarrow> uri \<Rightarrow> 'w \<Rightarrow> ((error + unit) \<times> 'w) option" where
  "mkdirp R provider directory w =
     (case mkdirp_up R provider directory [] w of
        None \<Rightarrow> None
      | Some (Inl e, w') \<Rightarrow> Some (Inl e, w')
      | Some (Inr (d, directoriesToCreate), w') \<Rightarrow>
          Some (mkdirp_down R provider d (rev directoriesToCreate) w'))"

section \<open>Reading: unbuffered reads\<close>

record limits =
  limits_size :: "int option"
  limits_memory :: "int option"

record IReadFileOptions =
  read_position :: "int option"
  read_length :: "int option"
  read_etag :: "string option"
  read_limits :: "limits option"

definition validateReadFileLimits :: "uri \<Rightarrow> int \<Rightarrow> IReadFileOptions option \<Rightarrow> error + unit" where
  "validateReadFileLimits resource sz options =
     (case options of
        None \<Rightarrow> Inr ()
      | Some opts \<Rightarrow>
          (case read_limits opts of
             None \<Rightarrow> Inr ()
           | Some l \<Rightarrow>
               (let tooLarge1 = (case limits_memory l of
                                   None \<Rightarrow> None
                                 | Some m \<Rightarrow> if sz > m then Some FILE_EXCEEDS_MEMORY_LIMIT else None);
                    tooLarge2 = (case limits_size l of
                                   None \<Rightarrow> tooLarge1
                                 | Some z \<Rightarrow> if sz > z then Some FILE_TOO_LARGE else tooLarge1)
                in case tooLarge2 of
                     None \<Rightarrow> Inr ()
                   | Some r \<Rightarrow> Inl (FileOperationError r))))"

text \<open>
  The method \<^verbatim>\<open>slice(start, end)\<close> of a byte array, as the language defines it for
  integral arguments: a negative index counts from the end, both indices are clamped to
  the array, and an absent \<^verbatim>\<open>end\<close> is the length.
\<close>

definition js_slice :: "'a list \<Rightarrow> int \<Rightarrow> int option \<Rightarrow> 'a list" where
  "js_slice xs start fin =
     (let len = int (length xs);
          k = (if start < 0 then max (len + start) 0 else min start len);
          final = (case fin of
                     None \<Rightarrow> len
                   | Some e \<Rightarrow> if e < 0 then max (len + e) 0 else min e len)
      in take (nat (final - k)) (drop (nat k) xs))"

definition readFileUnbuffered ::
  "'w IFileSystemProvider \<Rightarrow> uri \<Rightarrow> IReadFileOptions option \<Rightarrow> (8 word list, 'w) io" where
  "readFileUnbuffered provider resource options =
     bind_io (readFile provider resource) (\<lambda>buffer0.
       let buffer1 = (case options of
                        None \<Rightarrow> buffer0
                      | Some opts \<Rightarrow> (case read_position opts of
                                       None \<Rightarrow> buffer0
                                     | Some p \<Rightarrow> js_slice buffer0 p None));
           buffer2 = (case options of
                        None \<Rightarrow> buffer1
                      | Some opts \<Rightarrow> (case read_length opts of
                                       None \<Rightarrow> buffer1
                                     | Some l \<Rightarrow> js_slice buffer1 0 (Some l)))
       in case validateReadFileLimits resource (int (length buffer2)) options of
            Inl e \<Rightarrow> throw_io e
          | Inr u \<Rightarrow> return_io buffer2)"

section \<open>Copying a file across providers\<close>

text \<open>
  The four byte pipes that \<^verbatim>\<open>doCopyFile\<close> chooses from are parameters: the results about
  \<^verbatim>\<open>doCopyFile\<close> hold whatever the pipes do.
\<close>

record 'w pipes =
  doPipeBuffered ::
    "'w IFileSystemProvider \<Rightarrow> uri \<Rightarrow> 'w IFileSystemProvider \<Rightarrow> uri \<Rightarrow> (unit, 'w FileService) io"
  doPipeBufferedToUnbuffered ::
    "'w IFileSystemProvider \<Rightarrow> uri \<Rightarrow> 'w IFileSystemProvider \<Rightarrow> uri \<Rightarrow> (unit, 'w FileService) io"
  doPipeUnbufferedToBuffered ::
    "'w IFileSystemProvider \<Rightarrow> uri \<Rightarrow> 'w IFileSystemProvider \<Rightarrow> uri \<Rightarrow> (unit, 'w FileService) io"
  doPipeUnbuffered ::
    "'w IFileSystemProvider \<Rightarrow> uri \<Rightarrow> 'w IFileSystemProvider \<Rightarrow> uri \<Rightarrow> (unit, 'w FileService) io"

definition doCopyFile ::
  "'w pipes \<Rightarrow> 'w IFileSystemProvider \<Rightarrow> uri \<Rightarrow> 'w IFileSystemProvider \<Rightarrow> uri \<Rightarrow>
     (unit, 'w FileService) io" where
  "doCopyFile P sourceProvider source targetProvider target =
     (if hasOpenReadWriteCloseCapability sourceProvider \<and>
         hasOpenReadWriteCloseCapability targetProvider
      then doPipeBuffered P sourceProvider source targetProvider target
      else if hasOpenReadWriteCloseCapability sourceProvider \<and>
              hasReadWriteCapability targetProvider
      then doPipeBufferedToUnbuffered P sourceProvider source targetProvider target
      else if hasReadWriteCapability sourceProvider \<and>
              hasOpenReadWriteCloseCapability targetProvider
      then doPipeUnbufferedToBuffered P sourceProvider source targetProvider target
      else if hasReadWriteCapability sourceProvider \<and> hasReadWriteCapability targetProvider
      then doPipeUnbuffered P sourceProvider source targetProvider target
      else return_io ())"

section \<open>Move, copy and delete\<close>


text \<open>
  The methods of the service that the move and copy engine calls and that are not
  unfolded here (folder creation, metadata resolution with its options reduced to
  \<^verbatim>\<open>resolveMetadata\<close>, the recursive folder copy and the byte pipes) are parameters: the
  results about the engine hold whatever these methods do.
\<close>

record 'w methods =
  call_mkdirp :: "'w IFileSystemProvider \<Rightarrow> uri \<Rightarrow> (unit, 'w FileService) io"
  call_resolve :: "uri \<Rightarrow> bool \<Rightarrow> (IFileStat, 'w FileService) io"
  call_doCopyFolder ::
    "'w IFileSystemProvider \<Rightarrow> IFileStat \<Rightarrow> 'w IFileSystemProvider \<Rightarrow> uri \<Rightarrow>
       (unit, 'w FileService) io"
  call_pipes :: "'w pipes"

definition fire_onAfterOperation :: "FileOperationEvent \<Rightarrow> (unit, 'w FileService) io" where
  "fire_onAfterOperation e s = (Inr (), s\<lparr>onAfterOperation := onAfterOperation s @ [e]\<rparr>)"

text \<open>\<^verbatim>\<open>del\<close>, with the options \<^verbatim>\<open>useTrash\<close> and \<^verbatim>\<open>recursive\<close> after \<^verbatim>\<open>!!\<close>.\<close>

definition del :: "'w methods \<Rightarrow> uri \<Rightarrow> bool \<Rightarrow> bool \<Rightarrow> (unit, 'w FileService) io" where
  "del M resource useTrash recursive' =
     bind_io (withProvider resource) (\<lambda>p0.
     bind_io (throwIfFileSystemIsReadonly p0 resource) (\<lambda>provider.
       if useTrash \<and> Trash \<notin> capabilities provider
       then throw_io (Error ''deleteFailedTrashUnsupported'')
       else
         bind_io (exists resource) (\<lambda>exists'.
           if \<not> exists' then throw_io (FileOperationError FILE_NOT_FOUND)
           else
             bind_io
               (if \<not> recursive' \<and> exists'
                then bind_io (call_resolve M resource False) (\<lambda>st.
                       if fs_isDirectory st \<and>
                          (case fs_children st of None \<Rightarrow> False | Some cs \<Rightarrow> length cs > 0)
                       then throw_io (Error ''deleteFailedNonEmptyFolder'')
                       else return_io ())
                else return_io ())
               (\<lambda>_.
             bind_io (on_world (delete' provider resource recursive' useTrash)) (\<lambda>_.
               fire_onAfterOperation (FileOperationEvent resource DELETE None))))))"





section \<open>Watching\<close>

text \<open>
  \<^verbatim>\<open>String.prototype.toLowerCase\<close> on the letters A to Z; other characters are kept.
\<close>

definition toLowerCase :: "string \<Rightarrow> string" where
  "toLowerCase str =
     map (\<lambda>c. let n = (of_char c :: nat) in if 65 \<le> n \<and> n \<le> 90 then char_of (n + 32) else c) str"

definition toMapKey :: "'w IFileSystemProvider \<Rightarrow> uri \<Rightarrow> string" where
  "toMapKey provider resource =
     (if PathCaseSensitive \<in> capabilities provider then uri_toString resource
      else toLowerCase (uri_toString resource))"

text \<open>\<^verbatim>\<open>Array.prototype.join()\<close>: the elements separated by commas.\<close>

fun join :: "string list \<Rightarrow> string" where
  "join [] = []"
| "join [x] = x"
| "join (x # y # ys) = x @ CHR '','' # join (y # ys)"

definition toWatchKey :: "'w IFileSystemProvider \<Rightarrow> uri \<Rightarrow> IWatchOptions \<Rightarrow> string" where
  "toWatchKey provider resource options =
     join [toMapKey provider resource,
           (if recursive options then ''true'' else ''false''),
           join (excludes options)]"

text \<open>
  The part of \<^verbatim>\<open>doWatch\<close> after the provider is resolved; it runs without interruption.
  An invocation of \<^verbatim>\<open>provider.watch\<close> is appended to the log of invocations, and the
  disposable it returns is the position of the invocation in the log. A new entry object
  is appended to the store of entry objects.
\<close>

definition doWatch_body ::
  "'w IFileSystemProvider \<Rightarrow> uri \<Rightarrow> IWatchOptions \<Rightarrow> 'w FileService \<Rightarrow>
     IDisposable \<times> 'w FileService" where
  "doWatch_body provider resource options s =
     (let key = toWatchKey provider resource options in
      case map_of (activeWatchers s) key of
        Some r \<Rightarrow>
          (WatcherUnref r key,
           s\<lparr>watcherObjects := (watcherObjects s)
                 [r := (watcherObjects s ! r)\<lparr>w_count := w_count (watcherObjects s ! r) + 1\<rparr>]\<rparr>)
      | None \<Rightarrow>
          (WatcherUnref (length (watcherObjects s)) key,
           s\<lparr>providerWatchCalls := providerWatchCalls s @ [(ident provider, resource, options)],
             watcherObjects := watcherObjects s @
                 [\<lparr>w_disposable = length (providerWatchCalls s), w_count = 0 + 1\<rparr>],
             activeWatchers := AList.update key (length (watcherObjects s)) (activeWatchers s)\<rparr>))"

definition doWatch :: "uri \<Rightarrow> IWatchOptions \<Rightarrow> (IDisposable, 'w FileService) io" where
  "doWatch resource options =
     bind_io (withProvider resource) (\<lambda>provider s.
       case doWatch_body provider resource options s of (d, s') \<Rightarrow> (Inr d, s'))"

text \<open>
  Modelled from the spec: \<^verbatim>\<open>toDisposable\<close> and \<^verbatim>\<open>dispose\<close> belong to
  \<^verbatim>\<open>vs/base/common/lifecycle\<close>, which is not part of the sources at hand. The spec
  describes the handle of a watch as one that decrements the count on disposal:
  disposing a disposable made by \<^verbatim>\<open>toDisposable(fn)\<close> runs \<^verbatim>\<open>fn\<close>. For the closure of
  \<^verbatim>\<open>doWatch\<close> this is the body below, on the entry object the closure captured.
\<close>

definition dispose_disposable :: "IDisposable \<Rightarrow> 'w FileService \<Rightarrow> 'w FileService" where
  "dispose_disposable d s =
     (case d of
        WatcherUnref r key \<Rightarrow>
          (let w = (watcherObjects s ! r)\<lparr>w_count := w_count (watcherObjects s ! r) - 1\<rparr>;
               s1 = s\<lparr>watcherObjects := (watcherObjects s)[r := w]\<rparr>
           in if w_count w = 0
              then s1\<lparr>disposedWatches := disposedWatches s1 @ [w_disposable w],
                      activeWatchers := AList.delete key (activeWatchers s1)\<rparr>
              else s1)
      | SetWatchDisposed c \<Rightarrow>
          s\<lparr>watchCells := (watchCells s)[c := (watchCells s ! c)\<lparr>watchDisposed := True\<rparr>]\<rparr>)"

text \<open>
  \<^verbatim>\<open>watch\<close> in three steps. \<open>watch_start\<close> is the synchronous part: it creates the two
  local variables of the call and returns the handle, identified by the number of the
  call. \<open>watch_then\<close> is the callback that runs when \<^verbatim>\<open>doWatch\<close> has resolved;
  \<open>watch_settle\<close> runs \<^verbatim>\<open>doWatch\<close> and then the callback (an error is only logged).
  \<open>dispose_handle\<close> disposes the handle: \<^verbatim>\<open>dispose(watchDisposable)\<close>.
\<close>

definition watch_start :: "'w FileService \<Rightarrow> nat \<times> 'w FileService" where
  "watch_start s =
     (length (watchCells s),
      s\<lparr>watchCells := watchCells s @
           [\<lparr>watchDisposed = False,
             watchDisposable = SetWatchDisposed (length (watchCells s))\<rparr>]\<rparr>)"

definition watch_then :: "nat \<Rightarrow> IDisposable \<Rightarrow> 'w FileService \<Rightarrow> 'w FileService" where
  "watch_then c disposable s =
     (if watchDisposed (watchCells s ! c) then dispose_disposable disposable s
      else s\<lparr>watchCells := (watchCells s)[c := (watchCells s ! c)\<lparr>watchDisposable := disposable\<rparr>]\<rparr>)"

definition watch_settle :: "nat \<Rightarrow> uri \<Rightarrow> IWatchOptions \<Rightarrow> 'w FileService \<Rightarrow> 'w FileService" where
  "watch_settle c resource options s =
     (case doWatch resource options s of
        (Inl e, s') \<Rightarrow> s'
      | (Inr d, s') \<Rightarrow> watch_then c d s')"

definition dispose_handle :: "nat \<Rightarrow> 'w FileService \<Rightarrow> 'w FileService" where
  "dispose_handle c s = dispose_disposable (watchDisposable (watchCells s ! c)) s"

text \<open>
  \<^verbatim>\<open>dispose\<close> of the service, as far as the watchers go: every entry's disposable is
  disposed, in the order of the table, and the table is cleared.
\<close>

definition dispose_service :: "'w FileService \<Rightarrow> 'w FileService" where
  "dispose_service s =
     s\<lparr>disposedWatches := disposedWatches s @
          map (\<lambda>(key, r). w_disposable (watcherObjects s ! r)) (activeWatchers s),
       activeWatchers := []\<rparr>"

text \<open>
  Runs of watch calls and disposals: \<open>DoWatch\<close> is a call of \<^verbatim>\<open>doWatch\<close> whose provider is
  resolved, \<open>Dispose i\<close> disposes the disposable that the \<open>i\<close>-th call returned. A run
  carries the state and the disposables returned so far.
\<close>

datatype 'w watchEvent = DoWatch "'w IFileSystemProvider" uri IWatchOptions | Dispose nat

fun run_watch ::
  "'w watchEvent list \<Rightarrow> 'w FileService \<times> IDisposable list \<Rightarrow> 'w FileService \<times> IDisposable list" where
  "run_watch [] st = st"
| "run_watch (DoWatch p r opts # es) (s, ds) =
     (case doWatch_body p r opts s of (d, s') \<Rightarrow> run_watch es (s', ds @ [d]))"
| "run_watch (Dispose i # es) (s, ds) = run_watch es (dispose_disposable (ds ! i) s, ds)"

fun disposals :: "'w watchEvent list \<Rightarrow> nat" where
  "disposals [] = 0"
| "disposals (DoWatch p r opts # es) = disposals es"
| "disposals (Dispose i # es) = Suc (disposals es)"

text \<open>
  The runs in which watchers share one entry, given the number \<open>n\<close> of calls made and the
  list \<open>D\<close> of disposables disposed so far: every call composes the key \<open>key\<close>,
  every disposable is one that was returned and is disposed at most once, and after the
  first call a further call comes only while some disposable is still undisposed.
\<close>

fun shared_run :: "string \<Rightarrow> nat \<Rightarrow> nat list \<Rightarrow> 'w watchEvent list \<Rightarrow> bool" where
  "shared_run key n D [] = True"
| "shared_run key n D (DoWatch p r opts # es) =
     (toWatchKey p r opts = key \<and> (n = 0 \<or> length D < n) \<and> shared_run key (Suc n) D es)"
| "shared_run key n D (Dispose i # es) =
     (i < n \<and> i \<notin> set D \<and> shared_run key n (i # D) es)"

fun watches :: "'w watchEvent list \<Rightarrow> nat" where
  "watches [] = 0"
| "watches (DoWatch p r opts # es) = Suc (watches es)"
| "watches (Dispose i # es) = watches es"

text \<open>
  The disposables of a run that are undisposed at its end: the calls of the run whose
  number occurs in no disposal.
\<close>

fun disposed :: "'w watchEvent list \<Rightarrow> nat list" where
  "disposed [] = []"
| "disposed (DoWatch p r opts # es) = disposed es"
| "disposed (Dispose i # es) = i # disposed es"

definition undisposed :: "'w watchEvent list \<Rightarrow> nat list" where
  "undisposed es = filter (\<lambda>i. i \<notin> set (disposed es)) [0..<watches es]"

text \<open>
  The invariant of these runs, from the first call on. \<open>s0\<close> is the state before the
  first call: the entry object the first call creates is the one at the end of the store
  of \<open>s0\<close>, and the invocation of \<^verbatim>\<open>provider.watch\<close> the one at the end of the log of \<open>s0\<close>.
\<close>

definition shared_inv ::
  "string \<Rightarrow> 'w FileService \<Rightarrow> nat \<Rightarrow> nat list \<Rightarrow> 'w FileService \<Rightarrow> IDisposable list \<Rightarrow> bool" where
  "shared_inv key s0 n D s ds =
     (n = length ds \<and> 0 < n \<and> distinct D \<and> set D \<subseteq> {..<n} \<and>
      set ds \<subseteq> {WatcherUnref (length (watcherObjects s0)) key} \<and>
      length (watcherObjects s0) < length (watcherObjects s) \<and>
      w_disposable (watcherObjects s ! length (watcherObjects s0)) =
        length (providerWatchCalls s0) \<and>
      w_count (watcherObjects s ! length (watcherObjects s0)) = int n - int (length D) \<and>
      (\<exists>c. providerWatchCalls s = providerWatchCalls s0 @ [c]) \<and>
      (if length D < n
       then map_of (activeWatchers s) key = Some (length (watcherObjects s0)) \<and>
            disposedWatches s = disposedWatches s0
       else map_of (activeWatchers s) key = None \<and>
            disposedWatches s = disposedWatches s0 @ [length (providerWatchCalls s0)]))"

section \<open>Resolving metadata: the tree walker\<close>

text \<open>
  Modelled from the spec: the prefix trie \<^verbatim>\<open>TernarySearchTree.forPaths\<close> belongs to
  \<^verbatim>\<open>vs/base/common/map\<close>, which is not part of the sources at hand. The spec describes it
  as a structure over URI strings that answers whether it has an entry at or beneath a
  prefix. A key is kept as the list of its path segments (the pieces between slashes);
  \<open>trie_get\<close> answers whether the key is an entry, \<open>trie_findSuperstr\<close> whether some entry
  lies strictly beneath the key.
\<close>

fun segs :: "string \<Rightarrow> string \<Rightarrow> string list" where
  "segs cur [] = (if cur = [] then [] else [cur])"
| "segs cur (c # cs) =
     (if c = CHR ''/'' then (if cur = [] then segs [] cs else cur # segs [] cs)
      else segs (cur @ [c]) cs)"

definition segments :: "string \<Rightarrow> string list" where
  "segments str = segs [] str"

type_synonym TernarySearchTree = "string list list"

definition trie_set :: "string \<Rightarrow> TernarySearchTree \<Rightarrow> TernarySearchTree" where
  "trie_set key t = (if segments key \<in> set t then t else t @ [segments key])"

definition trie_get :: "TernarySearchTree \<Rightarrow> string \<Rightarrow> bool" where
  "trie_get t key = (segments key \<in> set t)"

definition trie_findSuperstr :: "TernarySearchTree \<Rightarrow> string \<Rightarrow> bool" where
  "trie_findSuperstr t key = list_ex (strict_prefix (segments key)) t"

record IResolveFileOptions =
  resolveTo :: "uri list"
  resolveSingleChildDescendants :: bool
  resolveMetadata :: bool

text \<open>
  The callback \<^verbatim>\<open>recurse\<close> of \<^verbatim>\<open>doResolveFile\<close>. The source builds the trie at the first
  call and keeps it; it is the same trie at every call. \<open>siblings\<close> is \<open>None\<close> for
  \<^verbatim>\<open>undefined\<close>.
\<close>

definition recurse :: "uri \<Rightarrow> uri list \<Rightarrow> bool \<Rightarrow> IFileStat \<Rightarrow> nat option \<Rightarrow> bool" where
  "recurse resource resolveTo' resolveSingleChildDescendants' st siblings =
     (let trie = foldl (\<lambda>t u. trie_set (uri_toString u) t)
                   (trie_set (uri_toString resource) []) resolveTo'
      in if trie_findSuperstr trie (uri_toString (fs_resource st)) \<or>
            trie_get trie (uri_toString (fs_resource st))
         then True
         else if fs_isDirectory st \<and> resolveSingleChildDescendants'
         then siblings = Some 1
         else False)"

text \<open>\<^verbatim>\<open>coalesce\<close> drops the null entries.\<close>

definition coalesce :: "'a option list \<Rightarrow> 'a list" where
  "coalesce xs = map the (filter (\<lambda>x. x \<noteq> None) xs)"

definition with_children :: "IFileStat \<Rightarrow> IFileStat list \<Rightarrow> IFileStat" where
  "with_children st cs =
     IFileStat (fs_resource st) (fs_name st) (fs_isFile st) (fs_isDirectory st)
       (fs_isSymbolicLink st) (fs_mtime st) (fs_ctime st) (fs_size st) (fs_etag st) (Some cs)"

text \<open>
  \<^verbatim>\<open>toFileStat\<close>. A provider may present a tree without end, so the recursion carries
  fuel (one unit per level of the tree) and running out of fuel is \<open>None\<close>. The functions
  \<^verbatim>\<open>getBaseLabel\<close> and \<^verbatim>\<open>etag\<close>, not at hand, are the parameters \<open>L\<close> and \<open>E\<close>;
  \<open>toFileStat_entries\<close> is the map over the entries of a directory inside \<^verbatim>\<open>Promise.all\<close>,
  taken from the first entry to the last, where a failed child is \<open>None\<close>. The stat of a
  child that is not resolved with metadata has only its type.
\<close>

fun toFileStat ::
  "nat \<Rightarrow> (uri \<Rightarrow> string) \<Rightarrow> (int option \<Rightarrow> int option \<Rightarrow> string option) \<Rightarrow> resources \<Rightarrow>
     'w IFileSystemProvider \<Rightarrow> uri \<Rightarrow> IStat \<Rightarrow> nat option \<Rightarrow> bool \<Rightarrow>
     (IFileStat \<Rightarrow> nat option \<Rightarrow> bool) \<Rightarrow> 'w \<Rightarrow> (IFileStat \<times> 'w) option"
and toFileStat_entries ::
  "nat \<Rightarrow> (uri \<Rightarrow> string) \<Rightarrow> (int option \<Rightarrow> int option \<Rightarrow> string option) \<Rightarrow> resources \<Rightarrow>
     'w IFileSystemProvider \<Rightarrow> uri \<Rightarrow> (string \<times> FileType set) list \<Rightarrow> nat \<Rightarrow> bool \<Rightarrow>
     (IFileStat \<Rightarrow> nat option \<Rightarrow> bool) \<Rightarrow> 'w \<Rightarrow> (IFileStat option list \<times> 'w) option"
where
  "toFileStat 0 L E R provider resource st siblings resolveMetadata' rec w = None"
| "toFileStat (Suc n) L E R provider resource st siblings resolveMetadata' rec w =
     (let fileStat = IFileStat resource (L resource)
            (File \<in> stat_type st) (Directory \<in> stat_type st) (SymbolicLink \<in> stat_type st)
            (stat_mtime st) (stat_ctime st) (stat_size st)
            (E (stat_mtime st) (stat_size st)) None
      in if fs_isDirectory fileStat \<and> rec fileStat siblings
         then (case readdir provider resource w of
                 (Inl e, w1) \<Rightarrow> Some (with_children fileStat [], w1)
               | (Inr entries, w1) \<Rightarrow>
                   (case toFileStat_entries n L E R provider resource entries (length entries)
                           resolveMetadata' rec w1 of
                      None \<Rightarrow> None
                    | Some (resolvedEntries, w2) \<Rightarrow>
                        Some (with_children fileStat (coalesce resolvedEntries), w2)))
         else Some (fileStat, w))"
| "toFileStat_entries n L E R provider resource [] len resolveMetadata' rec w = Some ([], w)"
| "toFileStat_entries n L E R provider resource ((name, type) # rest) len resolveMetadata' rec w =
     (case (if resolveMetadata' then stat provider (joinPath R resource name) w
            else (Inr \<lparr> stat_type = type, stat_mtime = None, stat_ctime = None,
                        stat_size = None \<rparr>, w)) of
        (Inl e, w1) \<Rightarrow>
          (case toFileStat_entries n L E R provider resource rest len resolveMetadata' rec w1 of
             None \<Rightarrow> None
           | Some (rs, w2) \<Rightarrow> Some (None # rs, w2))
      | (Inr childStat, w1) \<Rightarrow>
          (case toFileStat n L E R provider (joinPath R resource name) childStat (Some len)
                  resolveMetadata' rec w1 of
             None \<Rightarrow> None
           | Some (child, w2) \<Rightarrow>
               (case toFileStat_entries n L E R provider resource rest len resolveMetadata' rec w2 of
                  None \<Rightarrow> None
                | Some (rs, w3) \<Rightarrow> Some (Some child # rs, w3))))"

text \<open>
  \<^verbatim>\<open>doResolveFile\<close>; \<open>options\<close> is \<open>None\<close> when the caller passes none. The three
  locals read from the options come first: an absent \<^verbatim>\<open>resolveTo\<close> is the empty list, an
  absent flag is false.
\<close>

definition options_resolveTo :: "IResolveFileOptions option \<Rightarrow> uri list" where
  "options_resolveTo options = (case options of None \<Rightarrow> [] | Some opts \<Rightarrow> resolveTo opts)"

definition options_resolveSingleChildDescendants :: "IResolveFileOptions option \<Rightarrow> bool" where
  "options_resolveSingleChildDescendants options =
     (case options of None \<Rightarrow> False | Some opts \<Rightarrow> resolveSingleChildDescendants opts)"

definition options_resolveMetadata :: "IResolveFileOptions option \<Rightarrow> bool" where
  "options_resolveMetadata options =
     (case options of None \<Rightarrow> False | Some opts \<Rightarrow> resolveMetadata opts)"

definition doResolveFile ::
  "nat \<Rightarrow> (uri \<Rightarrow> string) \<Rightarrow> (int option \<Rightarrow> int option \<Rightarrow> string option) \<Rightarrow> resources \<Rightarrow>
     uri \<Rightarrow> IResolveFileOptions option \<Rightarrow> 'w FileService \<Rightarrow>
     ((error + IFileStat) \<times> 'w FileService) option" where
  "doResolveFile fuel L E R resource options s =
     (case withProvider resource s of
        (Inl e, s1) \<Rightarrow> Some (Inl e, s1)
      | (Inr provider, s1) \<Rightarrow>
          (case stat provider resource (world s1) of
             (Inl e, w1) \<Rightarrow> Some (Inl e, s1\<lparr>world := w1\<rparr>)
           | (Inr st, w1) \<Rightarrow>
               (case toFileStat fuel L E R provider resource st None
                       (options_resolveMetadata options)
                       (recurse resource (options_resolveTo options)
                          (options_resolveSingleChildDescendants options)) w1 of
                  None \<Rightarrow> None
                | Some (fileStat, w2) \<Rightarrow> Some (Inr fileStat, s1\<lparr>world := w2\<rparr>))))"

subsection \<open>The calls of a traversal\<close>

text \<open>
  A call of \<^verbatim>\<open>toFileStat\<close> is given by its fuel, the resource, the stat, \<open>siblings\<close> and the
  state of the provider when the call is made; the other arguments are the same at every
  call of a traversal.
\<close>

datatype 'w call = Call nat uri IStat "nat option" 'w

definition run_call ::
  "(uri \<Rightarrow> string) \<Rightarrow> (int option \<Rightarrow> int option \<Rightarrow> string option) \<Rightarrow> resources \<Rightarrow>
     'w IFileSystemProvider \<Rightarrow> bool \<Rightarrow> (IFileStat \<Rightarrow> nat option \<Rightarrow> bool) \<Rightarrow> 'w call \<Rightarrow>
     (IFileStat \<times> 'w) option" where
  "run_call L E R provider rm rec c =
     (case c of Call fuel res st siblings w \<Rightarrow>
        toFileStat fuel L E R provider res st siblings rm rec w)"

text \<open>The object \<^verbatim>\<open>fileStat\<close> as \<^verbatim>\<open>toFileStat\<close> builds it first, without children.\<close>

definition convert ::
  "(uri \<Rightarrow> string) \<Rightarrow> (int option \<Rightarrow> int option \<Rightarrow> string option) \<Rightarrow> uri \<Rightarrow> IStat \<Rightarrow>
     IFileStat" where
  "convert L E resource st =
     IFileStat resource (L resource)
       (File \<in> stat_type st) (Directory \<in> stat_type st) (SymbolicLink \<in> stat_type st)
       (stat_mtime st) (stat_ctime st) (stat_size st)
       (E (stat_mtime st) (stat_size st)) None"

text \<open>The stat of a child: \<^verbatim>\<open>resolveMetadata ? await provider.stat(childResource) : { type }\<close>.\<close>

definition childStat_of ::
  "'w IFileSystemProvider \<Rightarrow> resources \<Rightarrow> bool \<Rightarrow> uri \<Rightarrow> string \<Rightarrow> FileType set \<Rightarrow> 'w \<Rightarrow>
     (error + IStat) \<times> 'w" where
  "childStat_of provider R rm resource name type w =
     (if rm then stat provider (joinPath R resource name) w
      else (Inr \<lparr> stat_type = type, stat_mtime = None, stat_ctime = None,
                  stat_size = None \<rparr>, w))"

text \<open>
  The nodes encountered during a traversal are the calls of \<^verbatim>\<open>toFileStat\<close> made in it:
  the call \<open>root\<close> that starts it, and every call made inside an encountered call. A call
  for a directory that the callback \<open>rec\<close> accepts lists the directory; when the listing
  is \<open>pre @ (name, type) # post\<close>, the call for the entry \<open>name\<close> is made once the entries
  \<open>pre\<close> before it are resolved and the stat of the child is there. Its fuel is one less,
  its \<open>siblings\<close> the number of entries of the listing.
\<close>

inductive encountered ::
  "(uri \<Rightarrow> string) \<Rightarrow> (int option \<Rightarrow> int option \<Rightarrow> string option) \<Rightarrow> resources \<Rightarrow>
     'w IFileSystemProvider \<Rightarrow> bool \<Rightarrow> (IFileStat \<Rightarrow> nat option \<Rightarrow> bool) \<Rightarrow> 'w call \<Rightarrow>
     'w call \<Rightarrow> bool"
  for L E R provider rm rec root
where
  encountered_root: "encountered L E R provider rm rec root root"
| encountered_child:
    "encountered L E R provider rm rec root (Call (Suc n) res st siblings w) \<Longrightarrow>
     Directory \<in> stat_type st \<Longrightarrow>
     rec (convert L E res st) siblings \<Longrightarrow>
     readdir provider res w = (Inr (pre @ (name, type) # post), w1) \<Longrightarrow>
     toFileStat_entries n L E R provider res pre (length (pre @ (name, type) # post)) rm rec w1 =
       Some (rs, w2) \<Longrightarrow>
     childStat_of provider R rm res name type w2 = (Inr st', w3) \<Longrightarrow>
     encountered L E R provider rm rec root
       (Call n (joinPath R res name) st' (Some (length (pre @ (name, type) # post))) w3)"

code_pred encountered .

text \<open>
  What a call does with its node. \<open>listed_and_recursed\<close>: \<^verbatim>\<open>provider.readdir\<close> is invoked
  on the resource in the state of the call, every entry of the listing is resolved (which
  recurses into it with \<^verbatim>\<open>toFileStat\<close>), and the call returns the node with the resolved
  entries as its children, in the state the last entry left; when \<^verbatim>\<open>readdir\<close> fails the
  node has the empty list of children. \<open>returned_unlisted\<close>: the call returns the node
  without children and leaves the state of the provider as it was.
\<close>

definition listed_and_recursed ::
  "(uri \<Rightarrow> string) \<Rightarrow> (int option \<Rightarrow> int option \<Rightarrow> string option) \<Rightarrow> resources \<Rightarrow>
     'w IFileSystemProvider \<Rightarrow> bool \<Rightarrow> (IFileStat \<Rightarrow> nat option \<Rightarrow> bool) \<Rightarrow> 'w call \<Rightarrow> bool" where
  "listed_and_recursed L E R provider rm rec c =
     (case c of Call fuel res st siblings w \<Rightarrow>
        (case readdir provider res w of
           (Inl e, w1) \<Rightarrow>
             run_call L E R provider rm rec c = Some (with_children (convert L E res st) [], w1)
         | (Inr entries, w1) \<Rightarrow>
             (case toFileStat_entries (fuel - 1) L E R provider res entries (length entries)
                     rm rec w1 of
                None \<Rightarrow> False
              | Some (rs, w2) \<Rightarrow>
                  run_call L E R provider rm rec c =
                    Some (with_children (convert L E res st) (coalesce rs), w2))))"

definition returned_unlisted ::
  "(uri \<Rightarrow> string) \<Rightarrow> (int option \<Rightarrow> int option \<Rightarrow> string option) \<Rightarrow> resources \<Rightarrow>
     'w IFileSystemProvider \<Rightarrow> bool \<Rightarrow> (IFileStat \<Rightarrow> nat option \<Rightarrow> bool) \<Rightarrow> 'w call \<Rightarrow> bool" where
  "returned_unlisted L E R provider rm rec c =
     (case c of Call fuel res st siblings w \<Rightarrow>
        run_call L E R provider rm rec c = Some (convert L E res st, w))"

text \<open>
  The rule of expansion in the words of the specification, for a node with the resource
  \<open>res\<close> whose parent listing had \<open>siblings\<close> entries: (a) some seed of the trie lies at or
  beneath the URI string of the node, or (b) \<^verbatim>\<open>resolveSingleChildDescendants\<close> is set and
  the listing of the parent had exactly one entry. A URI string lies at or beneath another
  when the segments of the other are a prefix of its segments.
\<close>

definition expand_rule :: "uri list \<Rightarrow> bool \<Rightarrow> uri \<Rightarrow> nat option \<Rightarrow> bool" where
  "expand_rule seeds rscd res siblings =
     (list_ex (\<lambda>u. prefix (segments (uri_toString res)) (segments (uri_toString u))) seeds \<or>
      (rscd \<and> siblings = Some 1))"

section \<open>Example instances\<close>

text \<open>
  Concrete instances on which the definitions are run: an etag function, POSIX-style path
  helpers, and a provider over an in-memory table from paths to file types.
\<close>

definition example_etag :: "int \<Rightarrow> int \<Rightarrow> string" where
  "example_etag m s = replicate (nat m) CHR ''m'' @ replicate (nat s) CHR ''s''"

definition path_dirname :: "string \<Rightarrow> string" where
  "path_dirname p =
     (if p = [] then []
      else (let d = rev (tl (dropWhile (\<lambda>c. c \<noteq> CHR ''/'') (rev p)))
            in if d = [] then ''/'' else d))"

definition path_basename :: "string \<Rightarrow> string" where
  "path_basename p = rev (takeWhile (\<lambda>c. c \<noteq> CHR ''/'') (rev p))"

definition path_join :: "string \<Rightarrow> string \<Rightarrow> string" where
  "path_join p n = (if p = ''/'' then p @ n else p @ ''/'' @ n)"

definition example_resources :: resources where
  "example_resources =
     \<lparr> dirname = (\<lambda>u. u\<lparr>path := path_dirname (path u)\<rparr>),
       basename = (\<lambda>u. path_basename (path u)),
       joinPath = (\<lambda>u n. u\<lparr>path := path_join (path u) n\<rparr>),
       isEqual = (\<lambda>a b ignoreCase. a = b),
       isEqualOrParent = (\<lambda>a b ignoreCase.
          scheme a = scheme b \<and> authority a = authority b \<and>
          (path a = path b \<or> prefix (path b @ ''/'') (path a))) \<rparr>"

definition example_measure :: "uri \<Rightarrow> nat" where
  "example_measure u = (if path u = ''/'' then 0 else Suc (length (path u)))"

type_synonym memfs = "(string \<times> FileType set \<times> 8 word list) list"

definition memProvider :: "nat \<Rightarrow> FileSystemProviderCapabilities set \<Rightarrow> memfs IFileSystemProvider" where
  "memProvider i caps =
     \<lparr> ident = i,
       capabilities = caps,
       stat = (\<lambda>u w. case map_of w (path u) of
                 None \<Rightarrow> (Inl (FileSystemProviderError FileNotFound), w)
               | Some (t, bytes) \<Rightarrow>
                   (Inr \<lparr> stat_type = t, stat_mtime = Some 2, stat_ctime = Some 1,
                          stat_size = Some (int (length bytes)) \<rparr>, w)),
       readdir = (\<lambda>u w. (Inr (map (\<lambda>(p, t, bytes). (path_basename p, t))
                   (filter (\<lambda>(p, t, bytes). p \<noteq> path u \<and> path_dirname p = path u) w)), w)),
       mkdir = (\<lambda>u w. (Inr (), w @ [(path u, {Directory}, [])])),
       delete' = (\<lambda>u rec trash w. (Inr (), filter (\<lambda>(p, e). p \<noteq> path u) w)),
       rename = (\<lambda>u v overwrite w.
                 (Inr (), map (\<lambda>(p, e). (if p = path u then path v else p, e)) w)),
       copy = (\<lambda>u v overwrite w. case map_of w (path u) of
                 None \<Rightarrow> (Inl (FileSystemProviderError FileNotFound), w)
               | Some e \<Rightarrow> (Inr (), w @ [(path v, e)])),
       readFile = (\<lambda>u w. case map_of w (path u) of
                 None \<Rightarrow> (Inl (FileSystemProviderError FileNotFound), w)
               | Some (t, bytes) \<Rightarrow> (Inr bytes, w)) \<rparr>"

definition example_dir :: "FileType set \<times> 8 word list" where
  "example_dir = ({Directory}, [])"

definition example_file :: "FileType set \<times> 8 word list" where
  "example_file = ({File}, [1, 2, 3, 4, 5])"

definition mem_uri :: "string \<Rightarrow> uri" where
  "mem_uri p = \<lparr> scheme = ''mem'', authority = [], path = p, query = [], fragment = [] \<rparr>"

definition example_service :: "memfs \<Rightarrow> memfs FileService" where
  "example_service w =
     \<lparr> providerMap = [''mem'' \<mapsto> memProvider 0 {FileReadWrite, PathCaseSensitive},
                      ''disk'' \<mapsto> memProvider 2 {FileOpenReadWriteClose, PathCaseSensitive}],
       fired = (\<lambda>sch reg. reg),
       joined = (\<lambda>sch reg. Inr reg),
       world = w,
       onAfterOperation = [],
       activeWatchers = [],
       watcherObjects = [],
       providerWatchCalls = [],
       disposedWatches = [],
       watchCells = [] \<rparr>"

definition example_pipes :: "memfs pipes" where
  "example_pipes =
     \<lparr> doPipeBuffered = (\<lambda>sp s tp t. on_world (\<lambda>w. (Inr (), w @ [(path t, example_file)]))),
       doPipeBufferedToUnbuffered =
         (\<lambda>sp s tp t. on_world (\<lambda>w. (Inr (), w @ [(path t, example_file)]))),
       doPipeUnbufferedToBuffered =
         (\<lambda>sp s tp t. on_world (\<lambda>w. (Inr (), w @ [(path t, example_file)]))),
       doPipeUnbuffered = (\<lambda>sp s tp t. on_world (\<lambda>w. (Inr (), w @ [(path t, example_file)]))) \<rparr>"

definition disk_uri :: "string \<Rightarrow> uri" where
  "disk_uri p = \<lparr> scheme = ''disk'', authority = [], path = p, query = [], fragment = [] \<rparr>"



definition example_watch_options :: IWatchOptions where
  "example_watch_options = \<lparr> recursive = True, excludes = [] \<rparr>"

definition example_watch_run :: "memfs watchEvent list" where
  "example_watch_run =
     [DoWatch (memProvider 0 {FileReadWrite, PathCaseSensitive}) (mem_uri ''/w'')
        example_watch_options,
      DoWatch (memProvider 0 {FileReadWrite, PathCaseSensitive}) (mem_uri ''/w'')
        example_watch_options,
      Dispose 1,
      Dispose 0]"

text \<open>
  Two \<^verbatim>\<open>watch\<close> calls for the same resource and options, both settled: the handles are
  the calls number 0 and 1.
\<close>

definition example_two_watches :: "memfs FileService" where
  "example_two_watches =
     watch_settle 1 (mem_uri ''/w'') example_watch_options
       (snd (watch_start
         (watch_settle 0 (mem_uri ''/w'') example_watch_options
           (snd (watch_start (example_service []))))))"

definition example_label :: "uri \<Rightarrow> string" where
  "example_label u = path_basename (path u)"

definition example_etag_of :: "int option \<Rightarrow> int option \<Rightarrow> string option" where
  "example_etag_of m s =
     (case m of None \<Rightarrow> None
      | Some m' \<Rightarrow> (case s of None \<Rightarrow> None | Some s' \<Rightarrow> Some (example_etag m' s')))"

definition example_double_dispose_run :: "memfs watchEvent list" where
  "example_double_dispose_run =
     [DoWatch (memProvider 0 {FileReadWrite, PathCaseSensitive}) (mem_uri ''/w'')
        example_watch_options,
      DoWatch (memProvider 0 {FileReadWrite, PathCaseSensitive}) (mem_uri ''/w'')
        example_watch_options,
      Dispose 0,
      Dispose 0]"

text \<open>
  A tree of three levels: the folder \<open>/a\<close> holds the single folder \<open>/a/b\<close> with two files,
  the folder \<open>/c\<close> holds one file.
\<close>

definition example_tree :: memfs where
  "example_tree =
     [(''/'', example_dir), (''/a'', example_dir), (''/a/b'', example_dir),
      (''/a/b/f'', example_file), (''/a/b/g'', example_file),
      (''/c'', example_dir), (''/c/h'', example_file)]"

definition example_options :: IResolveFileOptions where
  "example_options =
     \<lparr> resolveTo = [mem_uri ''/a''], resolveSingleChildDescendants = True,
       resolveMetadata = False \<rparr>"

text \<open>
  The number of levels of the tree at and below a resource: the levels of the tree less
  the number of slashes in the path of the resource.
\<close>

definition example_depth :: "uri \<Rightarrow> nat" where
  "example_depth u = 4 - length (filter (\<lambda>c. c = CHR ''/'') (path_join (path u) ''x''))"

abbreviation example_provider :: "memfs IFileSystemProvider" where
  "example_provider \<equiv> memProvider 0 {FileReadWrite, PathCaseSensitive}"

abbreviation example_recurse :: "IFileStat \<Rightarrow> nat option \<Rightarrow> bool" where
  "example_recurse \<equiv> recurse (mem_uri ''/'') [mem_uri ''/a''] True"

abbreviation example_type_only :: "FileType set \<Rightarrow> IStat" where
  "example_type_only t \<equiv> \<lparr> stat_type = t, stat_mtime = None, stat_ctime = None, stat_size = None \<rparr>"

definition example_node :: "string \<Rightarrow> string \<Rightarrow> bool \<Rightarrow> IFileStat list option \<Rightarrow> IFileStat" where
  "example_node p name dir cs =
     IFileStat (mem_uri p) name (\<not> dir) dir False None None None None cs"

definition example_result :: IFileStat where
  "example_result =
     IFileStat (mem_uri ''/'') [] False True False (Some 2) (Some 1) (Some 0)
       (Some (example_etag 2 0))
       (Some [example_node ''/a'' ''a'' True
                (Some [example_node ''/a/b'' ''b'' True
                         (Some [example_node ''/a/b/f'' ''f'' False None,
                                example_node ''/a/b/g'' ''g'' False None])]),
              example_node ''/c'' ''c'' True None])"

text \<open>
  A provider that records the resources it is asked to list: \<open>spy p\<close> acts as \<open>p\<close> on the
  first component of its state and appends the resource of every \<^verbatim>\<open>readdir\<close> to the second.
\<close>

definition spy :: "'w IFileSystemProvider \<Rightarrow> ('w \<times> uri list) IFileSystemProvider" where
  "spy p =
     \<lparr> ident = ident p,
       capabilities = capabilities p,
       stat = (\<lambda>u (w, log). case stat p u w of (r, w') \<Rightarrow> (r, (w', log))),
       readdir = (\<lambda>u (w, log). case readdir p u w of (r, w') \<Rightarrow> (r, (w', log @ [u]))),
       mkdir = (\<lambda>u (w, log). case mkdir p u w of (r, w') \<Rightarrow> (r, (w', log))),
       delete' = (\<lambda>u rec trash (w, log). case delete' p u rec trash w of (r, w') \<Rightarrow> (r, (w', log))),
       rename = (\<lambda>u v overwrite (w, log).
                   case rename p u v overwrite w of (r, w') \<Rightarrow> (r, (w', log))),
       copy = (\<lambda>u v overwrite (w, log). case copy p u v overwrite w of (r, w') \<Rightarrow> (r, (w', log))),
       readFile = (\<lambda>u (w, log). case readFile p u w of (r, w') \<Rightarrow> (r, (w', log))) \<rparr>"


text \<open>The service with the spying provider for the scheme \<open>mem\<close>, its record empty.\<close>

definition example_spy_service :: "(memfs \<times> uri list) FileService" where
  "example_spy_service =
     \<lparr> providerMap = [''mem'' \<mapsto> spy example_provider],
       fired = (\<lambda>sch reg. reg),
       joined = (\<lambda>sch reg. Inr reg),
       world = (example_tree, []),
       onAfterOperation = [],
       activeWatchers = [],
       watcherObjects = [],
       providerWatchCalls = [],
       disposedWatches = [],
       watchCells = [] \<rparr>"

section \<open>Results\<close>

subsection \<open>The dirty-write guard\<close>

lemma validateWriteFile_no_stat:
  "stat provider resource w = (Inl e, w') \<Longrightarrow>
   validateWriteFile etag ED provider resource options w = (Inr None, w')"
  by (simp add: validateWriteFile_def)

lemma validateWriteFile_directory:
  "stat provider resource w = (Inr st, w') \<Longrightarrow> Directory \<in> stat_type st \<Longrightarrow>
   validateWriteFile etag ED provider resource options w =
     (Inl (FileOperationError FILE_IS_DIRECTORY), w')"
  by (simp add: validateWriteFile_def)

text \<open>
  C1 (as amended). For a write whose options carry a numeric mtime \<open>om\<close> and a string
  etag \<open>oe\<close> other than \<open>ETAG_DISABLED\<close>, against a resource whose current stat is not a
  directory and has numeric mtime \<open>sm\<close> and size \<open>ss\<close>: validation fails with
  \<open>FILE_MODIFIED_SINCE\<close> if and only if \<open>om < sm\<close> and \<open>oe\<close> differs from the etag of
  \<open>(om, ss)\<close>; in every other case the guard passes, validation returns the current stat
  and the write proceeds.
\<close>

theorem validateWriteFile_dirty_write_guard:
  assumes "stat provider resource w = (Inr st, w')"
    and "Directory \<notin> stat_type st"
    and "stat_mtime st = Some sm" and "stat_size st = Some ss"
    and "options = Some opts"
    and "opt_mtime opts = Some om" and "opt_etag opts = Some oe"
    and "oe \<noteq> ETAG_DISABLED"
  shows "validateWriteFile etag ETAG_DISABLED provider resource options w =
           (if om < sm \<and> oe \<noteq> etag om ss
            then (Inl (FileOperationError FILE_MODIFIED_SINCE), w')
            else (Inr (Some st), w'))"
  using assms by (simp add: validateWriteFile_def)

text \<open>
  The case of the second end-to-end scenario of the spec: the caller's etag is the etag of
  its own mtime and the size on disk. The recomputed etag is then the same string, so the
  guard passes although the mtime on disk has advanced.
\<close>

lemma validateWriteFile_same_size_passes:
  assumes "stat provider resource w = (Inr st, w')"
    and "Directory \<notin> stat_type st"
    and "stat_mtime st = Some 2000" and "stat_size st = Some 5"
  shows "validateWriteFile etag ETAG_DISABLED provider resource
           (Some \<lparr> opt_mtime = Some 1000, opt_etag = Some (etag 1000 5) \<rparr>) w =
         (Inr (Some st), w')"
  using assms by (simp add: validateWriteFile_def)

lemma memProvider_stat:
  "stat (memProvider i caps) u w =
     (case map_of w (path u) of
        None \<Rightarrow> (Inl (FileSystemProviderError FileNotFound), w)
      | Some (t, bytes) \<Rightarrow>
          (Inr \<lparr> stat_type = t, stat_mtime = Some 2, stat_ctime = Some 1,
                 stat_size = Some (int (length bytes)) \<rparr>, w))"
  by (simp add: memProvider_def)

theorem validateWriteFile_dirty_write_guard_witness:
  "validateWriteFile example_etag [] (memProvider 0 {FileReadWrite}) (mem_uri ''/a'')
     (Some \<lparr> opt_mtime = Some 1, opt_etag = Some ''stale'' \<rparr>) [(''/a'', example_file)] =
   (Inl (FileOperationError FILE_MODIFIED_SINCE), [(''/a'', example_file)])"
  using validateWriteFile_dirty_write_guard
    [of "memProvider 0 {FileReadWrite}" "mem_uri ''/a''" "[(''/a'', example_file)]"
        "\<lparr> stat_type = {File}, stat_mtime = Some 2, stat_ctime = Some 1, stat_size = Some 5 \<rparr>"
        "[(''/a'', example_file)]" 2 5
        "Some \<lparr> opt_mtime = Some 1, opt_etag = Some ''stale'' \<rparr>"
        "\<lparr> opt_mtime = Some 1, opt_etag = Some ''stale'' \<rparr>" 1 "''stale''" "[]" example_etag]
  by (simp add: memProvider_stat mem_uri_def example_etag_def example_file_def)

text \<open>
  C1 as stated fails for a directory: the stat has a numeric mtime 2 and size 0, the
  options carry mtime 1 and an etag that differs from the etag of (1, 0), and the call
  fails with \<open>FILE_IS_DIRECTORY\<close>, not with \<open>FILE_MODIFIED_SINCE\<close>.
\<close>

theorem validateWriteFile_directory_counterexample:
  "stat (memProvider 0 {FileReadWrite}) (mem_uri ''/a'') [(''/a'', example_dir)] =
     (Inr \<lparr> stat_type = {Directory}, stat_mtime = Some 2, stat_ctime = Some 1,
             stat_size = Some 0 \<rparr>, [(''/a'', example_dir)]) \<and>
   ''stale'' \<noteq> [] \<and> (1::int) < 2 \<and> ''stale'' \<noteq> example_etag 1 0 \<and>
   fst (validateWriteFile example_etag [] (memProvider 0 {FileReadWrite}) (mem_uri ''/a'')
     (Some \<lparr> opt_mtime = Some 1, opt_etag = Some ''stale'' \<rparr>) [(''/a'', example_dir)]) =
     Inl (FileOperationError FILE_IS_DIRECTORY) \<and>
   fst (validateWriteFile example_etag [] (memProvider 0 {FileReadWrite}) (mem_uri ''/a'')
     (Some \<lparr> opt_mtime = Some 1, opt_etag = Some ''stale'' \<rparr>) [(''/a'', example_dir)]) \<noteq>
     Inl (FileOperationError FILE_MODIFIED_SINCE)"
  by (simp add: validateWriteFile_def memProvider_stat mem_uri_def example_etag_def
      example_dir_def)

subsection \<open>exists\<close>

lemma exists_propagates_withProvider_error:
  "withProvider resource s = (Inl e, s1) \<Longrightarrow> exists resource s = (Inl e, s1)"
  by (simp add: exists_def bind_io_def)

text \<open>
  C5 (as amended). \<^verbatim>\<open>exists\<close> resolves the provider outside its \<^verbatim>\<open>try\<close> block, so an
  error of \<^verbatim>\<open>withProvider\<close> (invalid path, failed activation, no provider) propagates.
  Once the provider is resolved, \<^verbatim>\<open>exists\<close> runs the provider's stat and returns false
  whenever stat fails and true when it succeeds; no error of stat propagates.
\<close>

theorem exists_catches_stat_errors:
  assumes "withProvider resource s = (Inr p, s1)"
  shows "exists resource s =
           (Inr (case fst (stat p resource (world s1)) of Inl e \<Rightarrow> False | Inr st \<Rightarrow> True),
            s1\<lparr>world := snd (stat p resource (world s1))\<rparr>)"
  using assms
  by (simp add: exists_def bind_io_def on_world_def split: prod.splits sum.splits)

lemma withProvider_example_service:
  "withProvider (mem_uri (CHR ''/'' # p)) (example_service w) =
     (Inr (memProvider 0 {FileReadWrite, PathCaseSensitive}), example_service w)"
  by (simp add: withProvider_def isAbsolutePath_def mem_uri_def bind_io_def
      activateProvider_def example_service_def Let_def)

theorem exists_catches_stat_errors_witness:
  "exists (mem_uri ''/missing'') (example_service [(''/'', example_dir)]) =
     (Inr False, example_service [(''/'', example_dir)])"
  using exists_catches_stat_errors [OF withProvider_example_service [of "''missing''" "[(''/'', example_dir)]"]]
  by (simp add: memProvider_stat mem_uri_def example_service_def example_dir_def)

text \<open>
  C5 as stated fails: for a relative path, and for a scheme without a provider, the error
  of \<^verbatim>\<open>withProvider\<close> reaches the caller of \<^verbatim>\<open>exists\<close>.
\<close>

theorem exists_propagates_counterexample:
  "fst (exists (mem_uri ''a/b.txt'') (example_service [])) =
     Inl (FileOperationError FILE_INVALID_PATH) \<and>
   fst (exists \<lparr> scheme = ''ftp'', authority = [], path = ''/a'', query = [], fragment = [] \<rparr>
          (example_service [])) = Inl (Error ''ENOPRO'')"
  by (simp add: exists_def withProvider_def isAbsolutePath_def mem_uri_def bind_io_def
      throw_io_def activateProvider_def example_service_def Let_def)

subsection \<open>mkdirp terminates\<close>

lemma mkdirp_up_terminates:
  assumes "\<And>d. \<not> isEqual R d (dirname R d) None \<Longrightarrow> m (dirname R d) < (m d :: nat)"
  shows "\<exists>r. mkdirp_up R provider directory acc w = Some r"
proof (induction "m directory" arbitrary: directory acc w rule: less_induct)
  case less
  show ?case
  proof (cases "isEqual R directory (dirname R directory) None")
    case True
    then show ?thesis by (subst mkdirp_up.simps) simp
  next
    case False
    from assms [OF False] have lt: "m (dirname R directory) < m directory" .
    note IH = less [OF lt]
    show ?thesis
      by (subst mkdirp_up.simps) (use False IH in \<open>auto split: prod.splits sum.splits\<close>)
  qed
qed

text \<open>
  C10. If \<^verbatim>\<open>dirname\<close> strictly decreases a measure of the directory (the length of its
  path) as long as the directory differs from its own \<^verbatim>\<open>dirname\<close>, then \<^verbatim>\<open>mkdirp\<close>
  returns for every provider, every directory and every state: with an error or with the
  state after the \<^verbatim>\<open>mkdir\<close> calls. The downward loop is a recursion over the list of
  collected basenames.
\<close>

theorem mkdirp_terminates:
  assumes "\<And>d. \<not> isEqual R d (dirname R d) None \<Longrightarrow> m (dirname R d) < (m d :: nat)"
  shows "\<exists>r. mkdirp R provider directory w = Some r"
proof -
  from mkdirp_up_terminates [of R m provider directory "[]" w, OF assms]
  obtain r where "mkdirp_up R provider directory [] w = Some r" by blast
  then show ?thesis
    by (cases r) (auto simp: mkdirp_def split: sum.splits prod.splits)
qed

lemma length_path_dirname:
  assumes p: "p \<noteq> []" and nr: "path_dirname p \<noteq> ''/''"
  shows "length (path_dirname p) < length p"
proof -
  define xs where "xs = dropWhile (\<lambda>c. c \<noteq> CHR ''/'') (rev p)"
  from p nr have d: "path_dirname p = rev (tl xs)" "rev (tl xs) \<noteq> []"
    by (auto simp: path_dirname_def Let_def xs_def split: if_splits)
  have le: "length xs \<le> length p"
    unfolding xs_def using length_dropWhile_le [of "\<lambda>c. c \<noteq> CHR ''/''" "rev p"] by simp
  from d(2) have "xs \<noteq> []" by (cases xs) auto
  then have "length (tl xs) < length xs" by (cases xs) auto
  with le d(1) show ?thesis by simp
qed

lemma example_measure_decreases:
  assumes ne: "\<not> isEqual example_resources d (dirname example_resources d) None"
  shows "example_measure (dirname example_resources d) < example_measure d"
proof -
  from ne have neq: "path_dirname (path d) \<noteq> path d"
    by (cases d) (auto simp: example_resources_def)
  then have p: "path d \<noteq> []" by (auto simp: path_dirname_def)
  show ?thesis
  proof (cases "path_dirname (path d) = ''/''")
    case True
    with neq show ?thesis by (simp add: example_resources_def example_measure_def)
  next
    case False
    have "path_dirname ''/'' = ''/''" by (simp add: path_dirname_def)
    with False have "path d \<noteq> ''/''" by auto
    with length_path_dirname [OF p False] False show ?thesis
      by (simp add: example_resources_def example_measure_def)
  qed
qed

theorem mkdirp_terminates_witness:
  "\<exists>r. mkdirp example_resources (memProvider 0 {FileReadWrite}) (mem_uri ''/a/b/c'')
         [(''/'', example_dir)] = Some r"
  by (rule mkdirp_terminates [of example_resources example_measure])
     (rule example_measure_decreases)

lemma mkdirp_example_run:
  "mkdirp example_resources (memProvider 0 {FileReadWrite}) (mem_uri ''/a/b'')
     [(''/'', example_dir)] =
   Some (Inr (), [(''/'', example_dir), (''/a'', example_dir), (''/a/b'', example_dir)])"
  by code_simp

subsection \<open>Unbuffered reads slice the buffer of the provider\<close>

lemma js_slice_from: "0 \<le> p \<Longrightarrow> js_slice xs p None = drop (nat p) xs"
  by (auto simp: js_slice_def Let_def min_def)

lemma js_slice_to: "0 \<le> l \<Longrightarrow> js_slice xs 0 (Some l) = take (nat l) xs"
  by (auto simp: js_slice_def Let_def min_def)

lemma js_slice_zero: "js_slice xs 0 (Some 0) = []"
  by (simp add: js_slice_def)

lemma validateReadFileLimits_no_limits:
  "read_limits opts = None \<Longrightarrow> validateReadFileLimits resource n (Some opts) = Inr ()"
  by (simp add: validateReadFileLimits_def)

text \<open>
  C8. Let the provider return the buffer \<open>B\<close>. For a position \<open>p\<close> and a length \<open>l\<close> that
  are not negative, the bytes of an unbuffered read are \<open>B\<close> without its first \<open>p\<close> bytes
  when the position is a number, cut to at most \<open>l\<close> bytes when the length is a number;
  they are returned unless the size limits of the options reject their length. A length
  of 0 gives no bytes, whatever the position is (a negative one included).
\<close>

theorem readFileUnbuffered_slices:
  assumes "readFile provider resource w = (Inr B, w')"
  shows "((\<forall>p. read_position opts = Some p \<longrightarrow> 0 \<le> p) \<and>
          (\<forall>l. read_length opts = Some l \<longrightarrow> 0 \<le> l) \<longrightarrow>
          readFileUnbuffered provider resource (Some opts) w =
            (let sliced = (case read_position opts of None \<Rightarrow> B | Some p \<Rightarrow> drop (nat p) B);
                 result = (case read_length opts of
                             None \<Rightarrow> sliced
                           | Some l \<Rightarrow> take (nat l) sliced)
             in case validateReadFileLimits resource (int (length result)) (Some opts) of
                  Inl e \<Rightarrow> (Inl e, w')
                | Inr u \<Rightarrow> (Inr result, w'))) \<and>
         (read_length opts = Some 0 \<longrightarrow>
          readFileUnbuffered provider resource (Some opts) w =
            (case validateReadFileLimits resource 0 (Some opts) of
               Inl e \<Rightarrow> (Inl e, w')
             | Inr u \<Rightarrow> (Inr [], w')))"
  using assms
  by (auto simp: readFileUnbuffered_def bind_io_def Let_def js_slice_from js_slice_to
      js_slice_zero throw_io_def return_io_def split: option.splits sum.splits)

lemma memProvider_readFile:
  "readFile (memProvider i caps) (mem_uri p) [(p, example_file)] =
     (Inr [1, 2, 3, 4, 5], [(p, example_file)])"
  by (simp add: memProvider_def mem_uri_def example_file_def)

theorem readFileUnbuffered_slices_witness:
  "readFileUnbuffered (memProvider 0 {FileReadWrite}) (mem_uri ''/f'')
     (Some \<lparr> read_position = Some 1, read_length = Some 3, read_etag = None,
             read_limits = None \<rparr>) [(''/f'', example_file)] =
     (Inr [2, 3, 4], [(''/f'', example_file)]) \<and>
   readFileUnbuffered (memProvider 0 {FileReadWrite}) (mem_uri ''/f'')
     (Some \<lparr> read_position = Some (- 2), read_length = Some 0, read_etag = None,
             read_limits = None \<rparr>) [(''/f'', example_file)] =
     (Inr [], [(''/f'', example_file)])"
  using readFileUnbuffered_slices [OF memProvider_readFile [of 0 "{FileReadWrite}" "''/f''"],
      of "\<lparr> read_position = Some 1, read_length = Some 3, read_etag = None,
             read_limits = None \<rparr>"]
    readFileUnbuffered_slices [OF memProvider_readFile [of 0 "{FileReadWrite}" "''/f''"],
      of "\<lparr> read_position = Some (- 2), read_length = Some 0, read_etag = None,
             read_limits = None \<rparr>"]
  by (simp add: validateReadFileLimits_no_limits)

subsection \<open>A file copy without a matching byte pipe\<close>

text \<open>
  C9. When the capabilities of the source and the target provider match none of the four
  byte pipes, \<^verbatim>\<open>doCopyFile\<close> returns without an error and leaves the state as it is,
  whatever the pipes are: no pipe runs and no byte is moved.
\<close>

theorem doCopyFile_without_matching_pipe:
  assumes "\<not> (hasOpenReadWriteCloseCapability sp \<and> hasOpenReadWriteCloseCapability tp)"
    and "\<not> (hasOpenReadWriteCloseCapability sp \<and> hasReadWriteCapability tp)"
    and "\<not> (hasReadWriteCapability sp \<and> hasOpenReadWriteCloseCapability tp)"
    and "\<not> (hasReadWriteCapability sp \<and> hasReadWriteCapability tp)"
  shows "doCopyFile P sp source tp target s = (Inr (), s)"
  using assms by (auto simp: doCopyFile_def return_io_def)

text \<open>
  The case the claim names: a source provider with \<open>FileReadStream\<close> and neither
  \<open>FileReadWrite\<close> nor \<open>FileOpenReadWriteClose\<close> is accepted by \<^verbatim>\<open>withReadProvider\<close>, and
  copying a file from it does nothing.
\<close>

lemma withReadProvider_accepts_stream_only:
  assumes "withProvider resource s = (Inr p, s')" and "FileReadStream \<in> capabilities p"
  shows "withReadProvider resource s = (Inr p, s')"
  using assms
  by (simp add: withReadProvider_def bind_io_def return_io_def hasFileReadStreamCapability_def)

lemma doCopyFile_stream_only_source:
  assumes "FileReadWrite \<notin> capabilities sp" and "FileOpenReadWriteClose \<notin> capabilities sp"
  shows "doCopyFile P sp source tp target s = (Inr (), s)"
  using assms
  by (simp add: doCopyFile_def return_io_def hasReadWriteCapability_def
      hasOpenReadWriteCloseCapability_def)

theorem doCopyFile_without_matching_pipe_witness:
  "doCopyFile example_pipes (memProvider 2 {FileReadStream}) (mem_uri ''/f'')
     (memProvider 0 {FileReadWrite}) (mem_uri ''/g'') (example_service [(''/f'', example_file)]) =
   (Inr (), example_service [(''/f'', example_file)])"
  by (rule doCopyFile_without_matching_pipe)
     (simp_all add: hasReadWriteCapability_def hasOpenReadWriteCloseCapability_def
        memProvider_def)

subsection \<open>Moving across providers\<close>





text \<open>
  Two resources with different schemes have different string forms (a scheme contains no
  colon), so resources served by different providers never take the early return of
  \<^verbatim>\<open>doMoveCopy\<close> for equal strings.
\<close>

lemma uri_toString_scheme_neq:
  assumes "CHR '':'' \<notin> set (scheme a)" and "CHR '':'' \<notin> set (scheme b)"
    and "scheme a \<noteq> scheme b"
  shows "uri_toString a \<noteq> uri_toString b"
proof
  assume eq: "uri_toString a = uri_toString b"
  have tw: "takeWhile (\<lambda>c. c \<noteq> CHR '':'') (xs @ CHR '':'' # r) = xs"
    if "CHR '':'' \<notin> set xs" for xs r
    using that by (induction xs) auto
  obtain ra rb where
    "uri_toString a = scheme a @ CHR '':'' # ra" "uri_toString b = scheme b @ CHR '':'' # rb"
    by (simp add: uri_toString_def)
  with tw [OF assms(1), of ra] tw [OF assms(2), of rb] eq assms(3) show False by simp
qed


lemma example_service_world:
  "world (example_service w) = w"
  "(example_service w)\<lparr>world := w'\<rparr> = example_service w'"
  by (simp_all add: example_service_def)


lemma uri_fields:
  "path (mem_uri p) = p" "scheme (mem_uri p) = ''mem''"
  "path (disk_uri p) = p" "scheme (disk_uri p) = ''disk''"
  by (simp_all add: mem_uri_def disk_uri_def)

lemma withProvider_mem:
  "withProvider (mem_uri (CHR ''/'' # p)) (example_service w) =
     (Inr (memProvider 0 {FileReadWrite, PathCaseSensitive}), example_service w)"
  by (simp add: withProvider_def isAbsolutePath_def mem_uri_def bind_io_def
      activateProvider_def example_service_def Let_def)















subsection \<open>Shared watchers are counted\<close>

lemma shared_inv_first:
  assumes "map_of (activeWatchers s0) key = None" and "toWatchKey p r opts = key"
    and "doWatch_body p r opts s0 = (d, s)"
  shows "shared_inv key s0 1 [] s [d]"
  using assms
  by (auto simp: doWatch_body_def shared_inv_def Let_def update_conv' nth_append)

lemma shared_inv_watch:
  assumes "shared_inv key s0 n D s ds" and "length D < n" and "toWatchKey p r opts = key"
    and "doWatch_body p r opts s = (d, s')"
  shows "shared_inv key s0 (Suc n) D s' (ds @ [d])"
  using assms
  by (auto simp: doWatch_body_def shared_inv_def Let_def)

lemma distinct_length_le:
  assumes "distinct D" and "set D \<subseteq> {..<n}"
  shows "length D \<le> (n::nat)"
proof -
  have "card (set D) \<le> card {..<n}" using assms(2) by (intro card_mono) auto
  with assms(1) show ?thesis by (simp add: distinct_card)
qed

lemma shared_inv_dispose:
  assumes "shared_inv key s0 n D s ds" and "i < n" and "i \<notin> set D"
  shows "shared_inv key s0 n (i # D) (dispose_disposable (ds ! i) s) ds"
proof -
  from assms(1,2) have "ds ! i \<in> set ds" by (simp add: shared_inv_def)
  with assms(1) have d: "ds ! i = WatcherUnref (length (watcherObjects s0)) key"
    by (auto simp: shared_inv_def)
  from assms have "distinct (i # D)" "set (i # D) \<subseteq> {..<n}"
    by (auto simp: shared_inv_def)
  then have le: "Suc (length D) \<le> n" using distinct_length_le [of "i # D" n] by simp
  show ?thesis
    using assms le unfolding d
    by (auto simp: shared_inv_def dispose_disposable_def Let_def delete_conv')
qed

lemma shared_inv_run:
  assumes "shared_inv key s0 n D s ds" and "shared_run key n D es"
    and "run_watch es (s, ds) = (s', ds')"
  shows "\<exists>D'. shared_inv key s0 (n + watches es) D' s' ds' \<and>
              length D' = length D + disposals es"
  using assms
proof (induction es arbitrary: n D s ds)
  case Nil
  then show ?case by auto
next
  case (Cons e es)
  show ?case
  proof (cases e)
    case (DoWatch p r opts)
    obtain d s1 where b: "doWatch_body p r opts s = (d, s1)" by (cases "doWatch_body p r opts s")
    from Cons.prems(1) have "0 < n" by (auto simp: shared_inv_def)
    with Cons.prems DoWatch have lt: "length D < n" and k: "toWatchKey p r opts = key"
      and rest: "shared_run key (Suc n) D es" by auto
    from shared_inv_watch [OF Cons.prems(1) lt k b]
    have inv: "shared_inv key s0 (Suc n) D s1 (ds @ [d])" .
    from Cons.prems(3) DoWatch b have run: "run_watch es (s1, ds @ [d]) = (s', ds')" by simp
    from Cons.IH [OF inv rest run] DoWatch show ?thesis by simp
  next
    case (Dispose i)
    with Cons.prems have i: "i < n" "i \<notin> set D" and rest: "shared_run key n (i # D) es" by auto
    from shared_inv_dispose [OF Cons.prems(1) i]
    have inv: "shared_inv key s0 n (i # D) (dispose_disposable (ds ! i) s) ds" .
    from Cons.prems(3) Dispose have run: "run_watch es (dispose_disposable (ds ! i) s, ds) = (s', ds')"
      by simp
    from Cons.IH [OF inv rest run] Dispose show ?thesis by simp
  qed
qed

text \<open>
  C6 (as amended: every handle is disposed at most once). Take a run of calls of
  \<^verbatim>\<open>doWatch\<close> that all compose the key \<open>key\<close> and of disposals of the disposables they
  returned, each disposed at most once, that starts in a state without an entry for \<open>key\<close>
  and in which some disposable is undisposed whenever a further call is made. After the run \<^verbatim>\<open>provider.watch\<close> has been invoked exactly once.
  While a disposable is undisposed the table has the entry, its count is the number of
  undisposed disposables, and the disposable of \<^verbatim>\<open>provider.watch\<close> has not been disposed.
  Once all are disposed, the entry is gone and that disposable has been disposed exactly
  once. Every prefix of such a run is such a run, so this holds at every moment.
\<close>

theorem shared_watch_refcount:
  assumes "map_of (activeWatchers s0) key = None"
    and "shared_run key 0 [] es" and "es \<noteq> []"
    and "run_watch es (s0, []) = (s, ds)"
  shows "(\<exists>c. providerWatchCalls s = providerWatchCalls s0 @ [c]) \<and>
         length ds = watches es \<and>
         (disposals es < watches es \<longrightarrow>
            (\<exists>r. map_of (activeWatchers s) key = Some r \<and>
                 w_count (watcherObjects s ! r) = int (watches es) - int (disposals es)) \<and>
            disposedWatches s = disposedWatches s0) \<and>
         (disposals es = watches es \<longrightarrow>
            map_of (activeWatchers s) key = None \<and>
            disposedWatches s = disposedWatches s0 @ [length (providerWatchCalls s0)])"
proof -
  from assms(3) obtain e es' where "es = e # es'" by (cases es) auto
  with assms(2) obtain p r opts where es: "es = DoWatch p r opts # es'"
    by (cases e) auto
  obtain d s1 where b: "doWatch_body p r opts s0 = (d, s1)" by (cases "doWatch_body p r opts s0")
  from assms(2) es have k: "toWatchKey p r opts = key" and rest: "shared_run key 1 [] es'" by auto
  from shared_inv_first [OF assms(1) k b] have inv: "shared_inv key s0 1 [] s1 [d]" .
  from assms(4) es b have run: "run_watch es' (s1, [d]) = (s, ds)" by simp
  from shared_inv_run [OF inv rest run] obtain D' where
    inv': "shared_inv key s0 (1 + watches es') D' s ds" and len: "length D' = disposals es'"
    by auto
  from inv' have "distinct D'" "set D' \<subseteq> {..<1 + watches es'}"
    by (auto simp: shared_inv_def)
  then have "length D' \<le> 1 + watches es'" by (rule distinct_length_le)
  with inv' len es show ?thesis
    by (auto simp: shared_inv_def split: if_splits)
qed

lemma example_toWatchKey:
  "toWatchKey (memProvider 0 {FileReadWrite, PathCaseSensitive}) (mem_uri ''/w'')
     example_watch_options = ''mem:///w,true,''"
  by (simp add: toWatchKey_def toMapKey_def memProvider_def uri_toString_def mem_uri_def
      example_watch_options_def)

lemma example_watch_run_shared: "shared_run ''mem:///w,true,'' 0 [] example_watch_run"
  by (simp add: example_watch_run_def example_toWatchKey)

theorem shared_watch_refcount_witness:
  "(\<exists>c. providerWatchCalls (fst (run_watch example_watch_run (example_service [], []))) =
         providerWatchCalls (example_service []) @ [c]) \<and>
   length (snd (run_watch example_watch_run (example_service [], []))) = 2 \<and>
   map_of (activeWatchers (fst (run_watch example_watch_run (example_service [], []))))
     ''mem:///w,true,'' = None \<and>
   disposedWatches (fst (run_watch example_watch_run (example_service [], []))) =
     disposedWatches (example_service []) @ [length (providerWatchCalls (example_service []))]"
  using shared_watch_refcount [of "example_service []" "''mem:///w,true,''" example_watch_run
      "fst (run_watch example_watch_run (example_service [], []))"
      "snd (run_watch example_watch_run (example_service [], []))", OF _ example_watch_run_shared]
  by (simp add: example_service_def) (simp add: example_watch_run_def)

text \<open>
  In such a run the number of disposals is the number of disposed disposables, so the
  count of the entry is the number of undisposed disposables.
\<close>

lemma length_filter_undisposed:
  assumes "distinct X" and "set X \<subseteq> {..<m}"
  shows "length (filter (\<lambda>i. i \<notin> set X) [0..<m]) = m - length X"
proof -
  have "distinct (filter (\<lambda>i. i \<notin> set X) [0..<m])" by simp
  then have "length (filter (\<lambda>i. i \<notin> set X) [0..<m]) =
             card (set (filter (\<lambda>i. i \<notin> set X) [0..<m]))"
    by (rule distinct_card [symmetric])
  also have "set (filter (\<lambda>i. i \<notin> set X) [0..<m]) = {..<m} - set X" by auto
  also have "card ({..<m} - set X) = card {..<m} - card (set X)"
    using assms(2) by (intro card_Diff_subset) auto
  also have "\<dots> = m - length X" using assms(1) by (simp add: distinct_card)
  finally show ?thesis .
qed

lemma shared_run_disposed:
  assumes "shared_run key n D es" and "set D \<subseteq> {..<n}"
  shows "distinct (disposed es) \<and> set (disposed es) \<inter> set D = {} \<and>
         set (disposed es) \<subseteq> {..<n + watches es} \<and> length (disposed es) = disposals es"
  using assms
proof (induction es arbitrary: n D)
  case Nil
  then show ?case by simp
next
  case (Cons e es)
  show ?case
  proof (cases e)
    case (DoWatch p r opts)
    with Cons.prems have "shared_run key (Suc n) D es" "set D \<subseteq> {..<Suc n}" by auto
    from Cons.IH [OF this] DoWatch show ?thesis by simp
  next
    case (Dispose i)
    with Cons.prems have "shared_run key n (i # D) es" "set (i # D) \<subseteq> {..<n}" by auto
    from Cons.IH [OF this] Dispose Cons.prems show ?thesis by auto
  qed
qed

lemma undisposed_shared_run:
  assumes "shared_run key 0 [] es"
  shows "int (length (undisposed es)) = int (watches es) - int (disposals es)"
proof -
  from shared_run_disposed [OF assms] have d: "distinct (disposed es)"
    "set (disposed es) \<subseteq> {..<watches es}" "length (disposed es) = disposals es" by simp_all
  from distinct_length_le [OF d(1,2)] d(3) have "disposals es \<le> watches es" by simp
  with length_filter_undisposed [OF d(1,2)] d(3) show ?thesis by (simp add: undisposed_def)
qed

text \<open>
  C6 as stated fails, because it does not ask that a handle is disposed at most once: two
  calls compose the same key and the first disposable is disposed twice. The second
  disposable is undisposed, yet the count of the entry is 0, not 1, the entry is removed
  from the table and the disposable of \<^verbatim>\<open>provider.watch\<close> has been disposed.
\<close>

theorem shared_watch_disposed_twice_counterexample:
  "toWatchKey (memProvider 0 {FileReadWrite, PathCaseSensitive}) (mem_uri ''/w'')
     example_watch_options = ''mem:///w,true,'' \<and>
   watches example_double_dispose_run = 2 \<and>
   undisposed example_double_dispose_run = [1] \<and>
   snd (run_watch example_double_dispose_run (example_service [], [])) =
     [WatcherUnref 0 ''mem:///w,true,'', WatcherUnref 0 ''mem:///w,true,''] \<and>
   w_count (watcherObjects (fst (run_watch example_double_dispose_run (example_service [], []))) ! 0)
     = 0 \<and>
   w_count (watcherObjects (fst (run_watch example_double_dispose_run (example_service [], []))) ! 0)
     \<noteq> int (length (undisposed example_double_dispose_run)) \<and>
   map_of (activeWatchers (fst (run_watch example_double_dispose_run (example_service [], []))))
     ''mem:///w,true,'' = None \<and>
   disposedWatches (fst (run_watch example_double_dispose_run (example_service [], []))) = [0]"
  by (simp add: example_double_dispose_run_def example_toWatchKey undisposed_def
      doWatch_body_def dispose_disposable_def example_service_def Let_def)

subsection \<open>Disposing the handle of a watch\<close>

lemma dispose_handle_keeps:
  assumes "watchDisposable (watchCells s ! c) = WatcherUnref r key"
  shows "watchCells (dispose_handle c s) = watchCells s"
    and "length (watcherObjects (dispose_handle c s)) = length (watcherObjects s)"
  using assms by (simp_all add: dispose_handle_def dispose_disposable_def Let_def)

lemma dispose_handle_once:
  assumes "watchDisposable (watchCells s ! c) = WatcherUnref r key"
    and "r < length (watcherObjects s)"
  shows "w_count (watcherObjects (dispose_handle c s) ! r) = w_count (watcherObjects s ! r) - 1"
  using assms by (simp add: dispose_handle_def dispose_disposable_def Let_def)

text \<open>
  A handle disposed before \<^verbatim>\<open>doWatch\<close> has resolved only sets \<^verbatim>\<open>watchDisposed\<close>; the
  callback then disposes the disposable of \<^verbatim>\<open>doWatch\<close>, once.
\<close>

lemma watch_then_after_early_dispose:
  assumes "watchDisposed (watchCells s ! c)"
  shows "watch_then c d s = dispose_disposable d s"
  using assms by (simp add: watch_then_def)

text \<open>
  C7 (as amended). Every disposal of a handle of \<^verbatim>\<open>watch\<close> that is wired to the
  disposable of \<^verbatim>\<open>doWatch\<close> decrements the count of the entry object by exactly one, in
  every state, also after the table has been cleared and the underlying subscription torn
  down. So a handle that is disposed once decrements the count once, and a handle that is
  disposed \<open>k\<close> times decrements it \<open>k\<close> times.
\<close>

theorem dispose_handle_decrements_each_time:
  assumes "watchDisposable (watchCells s ! c) = WatcherUnref r key"
    and "r < length (watcherObjects s)"
  shows "w_count (watcherObjects ((dispose_handle c ^^ k) s) ! r) =
           w_count (watcherObjects s ! r) - int k"
proof -
  have "watchCells ((dispose_handle c ^^ k) s) = watchCells s \<and>
        length (watcherObjects ((dispose_handle c ^^ k) s)) = length (watcherObjects s) \<and>
        w_count (watcherObjects ((dispose_handle c ^^ k) s) ! r) =
          w_count (watcherObjects s ! r) - int k"
  proof (induction k)
    case 0
    show ?case by simp
  next
    case (Suc k)
    let ?s = "(dispose_handle c ^^ k) s"
    from Suc assms have w: "watchDisposable (watchCells ?s ! c) = WatcherUnref r key"
      and r: "r < length (watcherObjects ?s)" by simp_all
    from dispose_handle_keeps [OF w] dispose_handle_once [OF w r] Suc show ?case by simp
  qed
  then show ?thesis by simp
qed

lemma example_two_watches_wired:
  "watchDisposable (watchCells example_two_watches ! 0) = WatcherUnref 0 ''mem:///w,true,''"
  "watchDisposable (watchCells example_two_watches ! 1) = WatcherUnref 0 ''mem:///w,true,''"
  "length (watcherObjects example_two_watches) = 1"
  "w_count (watcherObjects example_two_watches ! 0) = 2"
  by code_simp+

theorem dispose_handle_decrements_each_time_witness:
  "activeWatchers (dispose_service example_two_watches) = [] \<and>
   disposedWatches (dispose_service example_two_watches) = [0] \<and>
   w_count (watcherObjects (dispose_service example_two_watches) ! 0) = 2 \<and>
   w_count (watcherObjects ((dispose_handle 0 ^^ 1) (dispose_service example_two_watches)) ! 0) =
     w_count (watcherObjects (dispose_service example_two_watches) ! 0) - int 1"
  using dispose_handle_decrements_each_time
    [of "dispose_service example_two_watches" 0 0 "''mem:///w,true,''" 1]
    example_two_watches_wired
  by (simp add: dispose_service_def) code_simp

text \<open>
  C7 as stated fails: two handles share one entry with count 2; disposing the first handle
  twice decrements the count twice, to 0, so the underlying watch is disposed and the
  entry removed while the second handle is undisposed.
\<close>

theorem dispose_handle_twice_counterexample:
  "watchDisposable (watchCells example_two_watches ! 0) = WatcherUnref 0 ''mem:///w,true,'' \<and>
   watchDisposable (watchCells example_two_watches ! 1) = WatcherUnref 0 ''mem:///w,true,'' \<and>
   map_of (activeWatchers example_two_watches) ''mem:///w,true,'' = Some 0 \<and>
   w_count (watcherObjects example_two_watches ! 0) = 2 \<and>
   w_count (watcherObjects (dispose_handle 0 (dispose_handle 0 example_two_watches)) ! 0) = 0 \<and>
   w_count (watcherObjects (dispose_handle 0 (dispose_handle 0 example_two_watches)) ! 0) \<noteq>
     w_count (watcherObjects example_two_watches ! 0) - 1 \<and>
   map_of (activeWatchers (dispose_handle 0 (dispose_handle 0 example_two_watches)))
     ''mem:///w,true,'' = None \<and>
   disposedWatches (dispose_handle 0 (dispose_handle 0 example_two_watches)) = [0]"
  by code_simp

subsection \<open>Which directories the tree walker expands\<close>

lemma set_trie_set: "set (trie_set key t) = insert (segments key) (set t)"
  by (auto simp: trie_set_def)

lemma set_foldl_trie_set:
  "set (foldl (\<lambda>t u. trie_set (f u) t) t0 us) = set t0 \<union> (\<lambda>u. segments (f u)) ` set us"
  by (induction us arbitrary: t0) (auto simp: set_trie_set)

lemma trie_at_or_beneath:
  "trie_findSuperstr t key \<or> trie_get t key \<longleftrightarrow> (\<exists>k \<in> set t. prefix (segments key) k)"
  by (auto simp: trie_findSuperstr_def trie_get_def list_ex_iff strict_prefix_def)

lemma recurse_iff:
  "recurse resource resolveTo' rscd st siblings \<longleftrightarrow>
     (\<exists>u \<in> set (resource # resolveTo').
        prefix (segments (uri_toString (fs_resource st))) (segments (uri_toString u))) \<or>
     (fs_isDirectory st \<and> rscd \<and> siblings = Some 1)"
  unfolding recurse_def Let_def trie_at_or_beneath
  by (auto simp: set_foldl_trie_set set_trie_set)

text \<open>
  The defining equations of the walker are used in the form below, with the node written
  as \<open>convert\<close> and the stat of a child as \<open>childStat_of\<close>.
\<close>

lemma toFileStat_Suc:
  "toFileStat (Suc n) L E R provider res st siblings rm rec w =
     (if Directory \<in> stat_type st \<and> rec (convert L E res st) siblings
      then (case readdir provider res w of
              (Inl e, w1) \<Rightarrow> Some (with_children (convert L E res st) [], w1)
            | (Inr entries, w1) \<Rightarrow>
                (case toFileStat_entries n L E R provider res entries (length entries) rm rec w1 of
                   None \<Rightarrow> None
                 | Some (rs, w2) \<Rightarrow> Some (with_children (convert L E res st) (coalesce rs), w2)))
      else Some (convert L E res st, w))"
  by (simp only: toFileStat.simps Let_def convert_def IFileStat.sel)

lemma toFileStat_Suc_unlisted:
  assumes "\<not> (Directory \<in> stat_type st \<and> rec (convert L E res st) siblings)"
  shows "toFileStat (Suc n) L E R provider res st siblings rm rec w = Some (convert L E res st, w)"
  unfolding toFileStat_Suc using assms by (simp only: if_False simp_thms)

lemma toFileStat_Suc_listed:
  assumes "Directory \<in> stat_type st \<and> rec (convert L E res st) siblings"
  shows "toFileStat (Suc n) L E R provider res st siblings rm rec w =
     (case readdir provider res w of
        (Inl e, w1) \<Rightarrow> Some (with_children (convert L E res st) [], w1)
      | (Inr entries, w1) \<Rightarrow>
          (case toFileStat_entries n L E R provider res entries (length entries) rm rec w1 of
             None \<Rightarrow> None
           | Some (rs, w2) \<Rightarrow> Some (with_children (convert L E res st) (coalesce rs), w2)))"
  unfolding toFileStat_Suc using assms by (simp only: if_True simp_thms)

lemma toFileStat_entries_Cons:
  "toFileStat_entries n L E R provider res ((name, type) # rest) len rm rec w =
     (case childStat_of provider R rm res name type w of
        (Inl e, w1) \<Rightarrow>
          (case toFileStat_entries n L E R provider res rest len rm rec w1 of
             None \<Rightarrow> None
           | Some (rs, w2) \<Rightarrow> Some (None # rs, w2))
      | (Inr st', w1) \<Rightarrow>
          (case toFileStat n L E R provider (joinPath R res name) st' (Some len) rm rec w1 of
             None \<Rightarrow> None
           | Some (child, w2) \<Rightarrow>
               (case toFileStat_entries n L E R provider res rest len rm rec w2 of
                  None \<Rightarrow> None
                | Some (rs, w3) \<Rightarrow> Some (Some child # rs, w3))))"
  by (simp only: toFileStat_entries.simps childStat_of_def)

declare toFileStat.simps(2) [simp del] toFileStat_entries.simps(2) [simp del]

lemma with_children_neq_convert: "with_children (convert L E res st) cs \<noteq> convert L E res st"
  by (simp add: with_children_def convert_def)

lemma toFileStat_entries_append:
  assumes "toFileStat_entries n L E R provider res (pre @ (name, type) # post) len rm rec w1 = Some r"
    and "toFileStat_entries n L E R provider res pre len rm rec w1 = Some (rs, w2)"
    and "childStat_of provider R rm res name type w2 = (Inr st', w3)"
  shows "\<exists>r'. toFileStat n L E R provider (joinPath R res name) st' (Some len) rm rec w3 = Some r'"
  using assms
proof (induction pre arbitrary: w1 r rs)
  case Nil
  then show ?case
    by (simp add: toFileStat_entries_Cons split: option.splits)
next
  case (Cons e pre)
  obtain name' type' where e: "e = (name', type')" by (cases e)
  obtain x wa where c: "childStat_of provider R rm res name' type' w1 = (x, wa)"
    by (cases "childStat_of provider R rm res name' type' w1")
  show ?case
  proof (cases x)
    case (Inl err)
    with Cons.prems(1,2) e c obtain ra rsa where
      "toFileStat_entries n L E R provider res (pre @ (name, type) # post) len rm rec wa = Some ra"
      "toFileStat_entries n L E R provider res pre len rm rec wa = Some (rsa, w2)"
      by (auto simp: toFileStat_entries_Cons split: option.splits)
    from Cons.IH [OF this Cons.prems(3)] show ?thesis .
  next
    case (Inr stc)
    with Cons.prems(1,2) e c obtain ra rsa ch wb where
      "toFileStat n L E R provider (joinPath R res name') stc (Some len) rm rec wa = Some (ch, wb)"
      "toFileStat_entries n L E R provider res (pre @ (name, type) # post) len rm rec wb = Some ra"
      "toFileStat_entries n L E R provider res pre len rm rec wb = Some (rsa, w2)"
      by (auto simp: toFileStat_entries_Cons split: option.splits)
    from Cons.IH [OF this(2,3) Cons.prems(3)] show ?thesis .
  qed
qed

lemma encountered_returns:
  assumes "encountered L E R provider rm rec root c"
    and "\<exists>r. run_call L E R provider rm rec root = Some r"
  shows "\<exists>r. run_call L E R provider rm rec c = Some r"
  using assms
proof (induction rule: encountered.induct)
  case encountered_root
  then show ?case by simp
next
  case (encountered_child n res st siblings w pre name type post w1 rs w2 st' w3)
  from encountered_child.IH [OF encountered_child.prems] obtain r where
    "toFileStat (Suc n) L E R provider res st siblings rm rec w = Some r"
    by (auto simp: run_call_def)
  with encountered_child.hyps(2,3,4) obtain r' where
    "toFileStat_entries n L E R provider res (pre @ (name, type) # post)
       (length (pre @ (name, type) # post)) rm rec w1 = Some r'"
    by (auto simp: toFileStat_Suc split: option.splits)
  from toFileStat_entries_append [OF this encountered_child.hyps(5,6)]
  show ?case by (simp add: run_call_def)
qed

lemma recurse_expand_rule:
  "recurse resource resolveTo' rscd (convert L E res st) siblings \<and> Directory \<in> stat_type st \<longleftrightarrow>
     Directory \<in> stat_type st \<and> expand_rule (resource # resolveTo') rscd res siblings"
  by (auto simp: recurse_iff expand_rule_def convert_def list_ex_iff)

lemma call_cases:
  assumes "run_call L E R provider rm rec (Call fuel res st siblings w) = Some r"
  shows "(listed_and_recursed L E R provider rm rec (Call fuel res st siblings w) \<longleftrightarrow>
            Directory \<in> stat_type st \<and> rec (convert L E res st) siblings) \<and>
         (returned_unlisted L E R provider rm rec (Call fuel res st siblings w) \<longleftrightarrow>
            \<not> (Directory \<in> stat_type st \<and> rec (convert L E res st) siblings))"
proof (cases fuel)
  case 0
  with assms show ?thesis by (simp add: run_call_def)
next
  case (Suc n)
  show ?thesis
  proof (cases "Directory \<in> stat_type st \<and> rec (convert L E res st) siblings")
    case True
    with assms Suc show ?thesis
      by (auto simp: listed_and_recursed_def returned_unlisted_def run_call_def toFileStat_Suc
          with_children_neq_convert split: prod.splits sum.splits option.splits)
  next
    case False
    with assms Suc show ?thesis
      by (auto simp: listed_and_recursed_def returned_unlisted_def run_call_def toFileStat_Suc
          with_children_neq_convert with_children_neq_convert [symmetric]
          split: prod.splits sum.splits option.splits)
  qed
qed

text \<open>
  C4. Take a call of \<^verbatim>\<open>doResolveFile\<close> that resolves its provider and the stat of the
  resource and returns a result, and any node encountered during its traversal: a call of
  \<^verbatim>\<open>toFileStat\<close> for the resource \<open>res\<close> with the stat \<open>st\<close> and \<open>siblings\<close>. The result of
  \<^verbatim>\<open>doResolveFile\<close> is the result of the call for the root. The children of the node are
  listed and recursed into (\<^verbatim>\<open>readdir\<close> is invoked on \<open>res\<close>, every entry of the listing is
  resolved by a recursive call, and the resolved entries are the children of the node) if
  and only if the node is a directory and (a) some seed of the trie, the resource of the
  call or a \<^verbatim>\<open>resolveTo\<close> URI, lies at or beneath the URI string of the node, or (b)
  \<^verbatim>\<open>resolveSingleChildDescendants\<close> is set and the listing of the parent directory had
  exactly one entry. Otherwise, and only then, the node is returned without children and
  the state of the provider is left as it was (a provider that records its calls shows
  that \<^verbatim>\<open>readdir\<close> is not invoked then: lemma \<open>toFileStat_spy_listed\<close> below).
\<close>

theorem doResolveFile_expands_iff:
  assumes wp: "withProvider resource s = (Inr provider, s1)"
    and st: "stat provider resource (world s1) = (Inr st0, w0)"
    and run: "doResolveFile fuel L E R resource options s = Some (Inr fileStat, s')"
    and enc: "encountered L E R provider (options_resolveMetadata options)
                (recurse resource (options_resolveTo options)
                   (options_resolveSingleChildDescendants options))
                (Call fuel resource st0 None w0) (Call n res st siblings w)"
  shows "run_call L E R provider (options_resolveMetadata options)
           (recurse resource (options_resolveTo options)
              (options_resolveSingleChildDescendants options))
           (Call fuel resource st0 None w0) = Some (fileStat, world s') \<and>
         (listed_and_recursed L E R provider (options_resolveMetadata options)
            (recurse resource (options_resolveTo options)
               (options_resolveSingleChildDescendants options))
            (Call n res st siblings w) \<longleftrightarrow>
          Directory \<in> stat_type st \<and>
          expand_rule (resource # options_resolveTo options)
            (options_resolveSingleChildDescendants options) res siblings) \<and>
         (returned_unlisted L E R provider (options_resolveMetadata options)
            (recurse resource (options_resolveTo options)
               (options_resolveSingleChildDescendants options))
            (Call n res st siblings w) \<longleftrightarrow>
          \<not> (Directory \<in> stat_type st \<and>
             expand_rule (resource # options_resolveTo options)
               (options_resolveSingleChildDescendants options) res siblings))"
proof -
  from run wp st have root: "run_call L E R provider (options_resolveMetadata options)
                (recurse resource (options_resolveTo options)
                   (options_resolveSingleChildDescendants options))
                (Call fuel resource st0 None w0) = Some (fileStat, world s')"
    by (auto simp: doResolveFile_def run_call_def split: option.splits)
  then have "\<exists>r. run_call L E R provider (options_resolveMetadata options)
                (recurse resource (options_resolveTo options)
                   (options_resolveSingleChildDescendants options))
                (Call fuel resource st0 None w0) = Some r" by simp
  from encountered_returns [OF enc this] obtain r where
    "run_call L E R provider (options_resolveMetadata options)
                (recurse resource (options_resolveTo options)
                   (options_resolveSingleChildDescendants options))
                (Call n res st siblings w) = Some r" ..
  from call_cases [OF this] root show ?thesis
    using recurse_expand_rule [of resource "options_resolveTo options"
        "options_resolveSingleChildDescendants options" L E res st siblings]
    by blast
qed

text \<open>
  The traversal of the example tree from the root, with \<open>/a\<close> in \<^verbatim>\<open>resolveTo\<close> and
  \<^verbatim>\<open>resolveSingleChildDescendants\<close> set: the root and \<open>/a\<close> are expanded by (a), \<open>/a/b\<close> is
  the only entry of \<open>/a\<close> and is expanded by (b), \<open>/c\<close> is one of two entries of the root and
  is not expanded.
\<close>

lemma example_readdir:
  "readdir example_provider (mem_uri ''/'') example_tree =
     (Inr [(''a'', {Directory}), (''c'', {Directory})], example_tree)"
  "readdir example_provider (mem_uri ''/a'') example_tree =
     (Inr [(''b'', {Directory})], example_tree)"
  "readdir example_provider (mem_uri ''/a/b'') example_tree =
     (Inr [(''f'', {File}), (''g'', {File})], example_tree)"
  by (simp_all add: memProvider_def mem_uri_def example_tree_def path_dirname_def
      path_basename_def example_dir_def example_file_def)

lemma example_stat_root:
  "stat example_provider (mem_uri ''/'') example_tree =
     (Inr \<lparr> stat_type = {Directory}, stat_mtime = Some 2, stat_ctime = Some 1,
            stat_size = Some 0 \<rparr>, example_tree)"
  by (simp add: memProvider_stat uri_fields example_tree_def example_dir_def)

lemma example_joinPath:
  "joinPath example_resources (mem_uri ''/'') n = mem_uri (''/'' @ n)"
  "joinPath example_resources (mem_uri ''/a'') n = mem_uri (''/a/'' @ n)"
  "joinPath example_resources (mem_uri ''/a/b'') n = mem_uri (''/a/b/'' @ n)"
  by (simp_all add: example_resources_def mem_uri_def path_join_def)

lemma example_recurse_iff:
  "example_recurse (convert L E (mem_uri p) st) siblings \<longleftrightarrow>
     prefix (segments (''mem://'' @ p)) [''mem:''] \<or>
     prefix (segments (''mem://'' @ p)) [''mem:'', ''a''] \<or>
     (Directory \<in> stat_type st \<and> siblings = Some 1)"
  by (auto simp: recurse_iff convert_def uri_toString_def mem_uri_def segments_def)

lemma example_recurse_nodes:
  "example_recurse (convert L E (mem_uri ''/'') st) siblings"
  "example_recurse (convert L E (mem_uri ''/a'') st) siblings"
  "Directory \<in> stat_type st \<Longrightarrow> example_recurse (convert L E (mem_uri ''/a/b'') st) (Some (Suc 0))"
  "siblings \<noteq> Some 1 \<Longrightarrow> \<not> example_recurse (convert L E (mem_uri ''/c'') st) siblings"
  by (simp_all add: example_recurse_iff segments_def)

lemma example_convert:
  "convert example_label example_etag_of (mem_uri p) (example_type_only t) =
     IFileStat (mem_uri p) (path_basename p) (File \<in> t) (Directory \<in> t) (SymbolicLink \<in> t)
       None None None None None"
  by (simp add: convert_def example_label_def example_etag_of_def uri_fields)

lemma example_subtree_b:
  "toFileStat (Suc (Suc n)) example_label example_etag_of example_resources example_provider
     (mem_uri ''/a/b'') (example_type_only {Directory}) (Some (Suc 0)) False example_recurse
     example_tree =
   Some (example_node ''/a/b'' ''b'' True
           (Some [example_node ''/a/b/f'' ''f'' False None,
                  example_node ''/a/b/g'' ''g'' False None]), example_tree)"
  by (simp add: toFileStat_Suc toFileStat_entries_Cons childStat_of_def example_readdir
      example_joinPath example_recurse_nodes)
     (simp add: example_convert with_children_def coalesce_def example_node_def
        path_basename_def)

lemma example_subtree_a:
  "toFileStat (Suc (Suc (Suc n))) example_label example_etag_of example_resources example_provider
     (mem_uri ''/a'') (example_type_only {Directory}) siblings False example_recurse
     example_tree =
   Some (example_node ''/a'' ''a'' True
           (Some [example_node ''/a/b'' ''b'' True
                    (Some [example_node ''/a/b/f'' ''f'' False None,
                           example_node ''/a/b/g'' ''g'' False None])]), example_tree)"
  by (simp add: toFileStat_Suc [of "Suc (Suc n)"] toFileStat_entries_Cons childStat_of_def
      example_readdir example_joinPath example_recurse_nodes example_subtree_b)
     (simp add: example_convert with_children_def coalesce_def example_node_def
        path_basename_def)

lemma example_subtree_c:
  "siblings \<noteq> Some 1 \<Longrightarrow>
   toFileStat (Suc n) example_label example_etag_of example_resources example_provider
     (mem_uri ''/c'') (example_type_only {Directory}) siblings False example_recurse
     example_tree =
   Some (example_node ''/c'' ''c'' True None, example_tree)"
  by (simp add: toFileStat_Suc example_recurse_nodes)
     (simp add: example_convert example_node_def path_basename_def)

lemma example_entries_root:
  "toFileStat_entries (Suc (Suc (Suc n))) example_label example_etag_of example_resources
     example_provider (mem_uri ''/'') [(''a'', {Directory})] len False example_recurse
     example_tree =
   Some ([Some (example_node ''/a'' ''a'' True
           (Some [example_node ''/a/b'' ''b'' True
                    (Some [example_node ''/a/b/f'' ''f'' False None,
                           example_node ''/a/b/g'' ''g'' False None])]))], example_tree)"
  by (simp add: toFileStat_entries_Cons childStat_of_def example_joinPath example_subtree_a)

lemma example_root:
  "toFileStat (Suc (Suc (Suc (Suc n)))) example_label example_etag_of example_resources
     example_provider (mem_uri ''/'')
     \<lparr> stat_type = {Directory}, stat_mtime = Some 2, stat_ctime = Some 1, stat_size = Some 0 \<rparr>
     None False example_recurse example_tree =
   Some (example_result, example_tree)"
  by (simp add: toFileStat_Suc [of "Suc (Suc (Suc n))"] toFileStat_entries_Cons childStat_of_def
      example_readdir example_joinPath example_recurse_nodes example_subtree_a example_subtree_c)
     (simp add: convert_def with_children_def coalesce_def example_result_def
        example_label_def example_etag_of_def uri_fields path_basename_def)

lemma example_options_fields:
  "options_resolveTo (Some example_options) = [mem_uri ''/a'']"
  "options_resolveSingleChildDescendants (Some example_options) = True"
  "options_resolveMetadata (Some example_options) = False"
  by (simp_all add: options_resolveTo_def options_resolveSingleChildDescendants_def
      options_resolveMetadata_def example_options_def)

lemma doResolveFile_example:
  "doResolveFile 4 example_label example_etag_of example_resources (mem_uri ''/'')
     (Some example_options) (example_service example_tree) =
   Some (Inr example_result, example_service example_tree)"
proof -
  have four: "(4::nat) = Suc (Suc (Suc (Suc 0)))" by simp
  show ?thesis
    unfolding doResolveFile_def four
    by (simp add: withProvider_mem example_service_world example_stat_root example_options_fields
        example_root)
qed

lemma example_encountered_a:
  "encountered example_label example_etag_of example_resources example_provider False
     example_recurse
     (Call (Suc (Suc (Suc (Suc 0)))) (mem_uri ''/'')
        \<lparr> stat_type = {Directory}, stat_mtime = Some 2, stat_ctime = Some 1, stat_size = Some 0 \<rparr>
        None example_tree)
     (Call (Suc (Suc (Suc 0))) (mem_uri ''/a'') (example_type_only {Directory})
        (Some (Suc (Suc 0))) example_tree)"
proof -
  have "encountered example_label example_etag_of example_resources example_provider False
     example_recurse
     (Call (Suc (Suc (Suc (Suc 0)))) (mem_uri ''/'')
        \<lparr> stat_type = {Directory}, stat_mtime = Some 2, stat_ctime = Some 1, stat_size = Some 0 \<rparr>
        None example_tree)
     (Call (Suc (Suc (Suc 0))) (joinPath example_resources (mem_uri ''/'') ''a'')
        (example_type_only {Directory})
        (Some (length ([] @ (''a'', {Directory}) # [(''c'', {Directory})]))) example_tree)"
    by (rule encountered_child [OF encountered_root, where ?w1.0 = example_tree and rs = "[]"
          and ?w2.0 = example_tree])
       (simp_all add: example_recurse_nodes example_readdir childStat_of_def)
  then show ?thesis by (simp add: example_joinPath)
qed

lemma example_encountered_b:
  "encountered example_label example_etag_of example_resources example_provider False
     example_recurse
     (Call (Suc (Suc (Suc (Suc 0)))) (mem_uri ''/'')
        \<lparr> stat_type = {Directory}, stat_mtime = Some 2, stat_ctime = Some 1, stat_size = Some 0 \<rparr>
        None example_tree)
     (Call (Suc (Suc 0)) (mem_uri ''/a/b'') (example_type_only {Directory}) (Some (Suc 0))
        example_tree)"
proof -
  have "encountered example_label example_etag_of example_resources example_provider False
     example_recurse
     (Call (Suc (Suc (Suc (Suc 0)))) (mem_uri ''/'')
        \<lparr> stat_type = {Directory}, stat_mtime = Some 2, stat_ctime = Some 1, stat_size = Some 0 \<rparr>
        None example_tree)
     (Call (Suc (Suc 0)) (joinPath example_resources (mem_uri ''/a'') ''b'')
        (example_type_only {Directory})
        (Some (length ([] @ (''b'', {Directory}) # []))) example_tree)"
    by (rule encountered_child [OF example_encountered_a, where ?w1.0 = example_tree and rs = "[]"
          and ?w2.0 = example_tree])
       (simp_all add: example_recurse_nodes example_readdir childStat_of_def)
  then show ?thesis by (simp add: example_joinPath)
qed

lemma example_encountered_c:
  "encountered example_label example_etag_of example_resources example_provider False
     example_recurse
     (Call (Suc (Suc (Suc (Suc 0)))) (mem_uri ''/'')
        \<lparr> stat_type = {Directory}, stat_mtime = Some 2, stat_ctime = Some 1, stat_size = Some 0 \<rparr>
        None example_tree)
     (Call (Suc (Suc (Suc 0))) (mem_uri ''/c'') (example_type_only {Directory})
        (Some (Suc (Suc 0))) example_tree)"
proof -
  have "encountered example_label example_etag_of example_resources example_provider False
     example_recurse
     (Call (Suc (Suc (Suc (Suc 0)))) (mem_uri ''/'')
        \<lparr> stat_type = {Directory}, stat_mtime = Some 2, stat_ctime = Some 1, stat_size = Some 0 \<rparr>
        None example_tree)
     (Call (Suc (Suc (Suc 0))) (joinPath example_resources (mem_uri ''/'') ''c'')
        (example_type_only {Directory})
        (Some (length ([(''a'', {Directory})] @ (''c'', {Directory}) # []))) example_tree)"
    by (rule encountered_child [OF encountered_root, where ?w1.0 = example_tree
          and ?w2.0 = example_tree,
          OF _ _ _ example_entries_root [of 0]])
       (simp_all add: example_recurse_nodes example_readdir childStat_of_def)
  then show ?thesis by (simp add: example_joinPath)
qed

lemma example_expand_rule:
  "expand_rule [mem_uri ''/'', mem_uri ''/a''] True (mem_uri ''/a/b'') (Some 1)"
  "\<not> expand_rule [mem_uri ''/'', mem_uri ''/a''] True (mem_uri ''/c'') (Some 2)"
  by (simp_all add: expand_rule_def uri_toString_def mem_uri_def segments_def)

theorem doResolveFile_expands_iff_witness:
  "doResolveFile 4 example_label example_etag_of example_resources (mem_uri ''/'')
     (Some example_options) (example_service example_tree) =
     Some (Inr example_result, example_service example_tree) \<and>
   run_call example_label example_etag_of example_resources example_provider False
     example_recurse
     (Call 4 (mem_uri ''/'')
        \<lparr> stat_type = {Directory}, stat_mtime = Some 2, stat_ctime = Some 1, stat_size = Some 0 \<rparr>
        None example_tree) = Some (example_result, example_tree) \<and>
   encountered example_label example_etag_of example_resources example_provider False
     example_recurse
     (Call 4 (mem_uri ''/'')
        \<lparr> stat_type = {Directory}, stat_mtime = Some 2, stat_ctime = Some 1, stat_size = Some 0 \<rparr>
        None example_tree)
     (Call 2 (mem_uri ''/a/b'') (example_type_only {Directory}) (Some 1) example_tree) \<and>
   expand_rule [mem_uri ''/'', mem_uri ''/a''] True (mem_uri ''/a/b'') (Some 1) \<and>
   listed_and_recursed example_label example_etag_of example_resources example_provider False
     example_recurse
     (Call 2 (mem_uri ''/a/b'') (example_type_only {Directory}) (Some 1) example_tree) \<and>
   encountered example_label example_etag_of example_resources example_provider False
     example_recurse
     (Call 4 (mem_uri ''/'')
        \<lparr> stat_type = {Directory}, stat_mtime = Some 2, stat_ctime = Some 1, stat_size = Some 0 \<rparr>
        None example_tree)
     (Call 3 (mem_uri ''/c'') (example_type_only {Directory}) (Some 2) example_tree) \<and>
   \<not> expand_rule [mem_uri ''/'', mem_uri ''/a''] True (mem_uri ''/c'') (Some 2) \<and>
   returned_unlisted example_label example_etag_of example_resources example_provider False
     example_recurse
     (Call 3 (mem_uri ''/c'') (example_type_only {Directory}) (Some 2) example_tree)"
proof -
  have st: "stat example_provider (mem_uri ''/'') (world (example_service example_tree)) =
     (Inr \<lparr> stat_type = {Directory}, stat_mtime = Some 2, stat_ctime = Some 1,
            stat_size = Some 0 \<rparr>, example_tree)"
    by (simp add: example_service_world example_stat_root)
  have n: "(4::nat) = Suc (Suc (Suc (Suc 0)))" "(3::nat) = Suc (Suc (Suc 0))"
    "(2::nat) = Suc (Suc 0)" "(1::nat) = Suc 0" by simp_all
  note T = doResolveFile_expands_iff [OF withProvider_mem st doResolveFile_example,
      unfolded example_options_fields]
  have b: "encountered example_label example_etag_of example_resources example_provider False
     example_recurse
     (Call 4 (mem_uri ''/'')
        \<lparr> stat_type = {Directory}, stat_mtime = Some 2, stat_ctime = Some 1, stat_size = Some 0 \<rparr>
        None example_tree)
     (Call 2 (mem_uri ''/a/b'') (example_type_only {Directory}) (Some 1) example_tree)"
    using example_encountered_b by (simp only: n)
  have c: "encountered example_label example_etag_of example_resources example_provider False
     example_recurse
     (Call 4 (mem_uri ''/'')
        \<lparr> stat_type = {Directory}, stat_mtime = Some 2, stat_ctime = Some 1, stat_size = Some 0 \<rparr>
        None example_tree)
     (Call 3 (mem_uri ''/c'') (example_type_only {Directory}) (Some 2) example_tree)"
    using example_encountered_c by (simp only: n)
  from T [OF b] T [OF c] b c example_expand_rule doResolveFile_example
  show ?thesis by (simp add: example_service_world)
qed

text \<open>
  The calls made inside an encountered call that lists its directory: the listing is
  resolved up to every entry, and the call for the entry is encountered as soon as the
  stat of the child is there. The list of resolved entries has one element for every entry
  of the listing.
\<close>

lemma toFileStat_entries_length:
  "toFileStat_entries n L E R provider res entries len rm rec w = Some (rs, w') \<Longrightarrow>
   length rs = length entries"
proof (induction entries arbitrary: w rs)
  case Nil
  then show ?case by simp
next
  case (Cons e entries)
  obtain name type where e: "e = (name, type)" by (cases e)
  from Cons.prems obtain x rs' wa where
    "toFileStat_entries n L E R provider res entries len rm rec wa = Some (rs', w')" "rs = x # rs'"
    by (auto simp: e toFileStat_entries_Cons split: prod.splits sum.splits option.splits)
  with Cons.IH show ?case by auto
qed

lemma toFileStat_entries_prefix:
  "toFileStat_entries n L E R provider res (pre @ post) len rm rec w = Some r \<Longrightarrow>
   \<exists>rs w2. toFileStat_entries n L E R provider res pre len rm rec w = Some (rs, w2)"
proof (induction pre arbitrary: w r)
  case Nil
  then show ?case by simp
next
  case (Cons e pre)
  obtain name type where e: "e = (name, type)" by (cases e)
  obtain x w1 where c: "childStat_of provider R rm res name type w = (x, w1)"
    by (cases "childStat_of provider R rm res name type w")
  show ?case
  proof (cases x)
    case (Inl err)
    with Cons.prems c e obtain r' where
      "toFileStat_entries n L E R provider res (pre @ post) len rm rec w1 = Some r'"
      by (auto simp: toFileStat_entries_Cons split: option.splits)
    from Cons.IH [OF this] c Inl show ?thesis
      by (auto simp: e toFileStat_entries_Cons)
  next
    case (Inr st')
    with Cons.prems c e obtain child w2 r' where
      ch: "toFileStat n L E R provider (joinPath R res name) st' (Some len) rm rec w1 =
             Some (child, w2)"
      and "toFileStat_entries n L E R provider res (pre @ post) len rm rec w2 = Some r'"
      by (auto simp: toFileStat_entries_Cons split: option.splits)
    from Cons.IH [OF this(2)] c Inr ch show ?thesis
      by (auto simp: e toFileStat_entries_Cons)
  qed
qed

lemma listed_entries_encountered:
  assumes enc: "encountered L E R provider rm rec root (Call (Suc n) res st siblings w)"
    and ret: "run_call L E R provider rm rec (Call (Suc n) res st siblings w) = Some r"
    and listed: "Directory \<in> stat_type st \<and> rec (convert L E res st) siblings"
    and rd: "readdir provider res w = (Inr (pre @ (name, type) # post), w1)"
  shows "\<exists>rs w2.
           toFileStat_entries n L E R provider res pre (length (pre @ (name, type) # post))
             rm rec w1 = Some (rs, w2) \<and>
           (\<forall>st' w3. childStat_of provider R rm res name type w2 = (Inr st', w3) \<longrightarrow>
              encountered L E R provider rm rec root
                (Call n (joinPath R res name) st'
                   (Some (length (pre @ (name, type) # post))) w3))"
proof -
  from ret rd obtain r' where
    "toFileStat_entries n L E R provider res (pre @ (name, type) # post)
       (length (pre @ (name, type) # post)) rm rec w1 = Some r'"
    by (auto simp: run_call_def
        toFileStat_Suc_listed [where rec = rec and L = L and E = E, OF listed]
        split: option.splits)
  from toFileStat_entries_prefix [OF this] obtain rs w2 where
    pre: "toFileStat_entries n L E R provider res pre (length (pre @ (name, type) # post))
       rm rec w1 = Some (rs, w2)" by blast
  from listed have d: "Directory \<in> stat_type st" and r: "rec (convert L E res st) siblings"
    by simp_all
  from encountered_child [OF enc d r rd pre] pre show ?thesis by blast
qed

text \<open>
  Every child of an expanded directory is the result of a call of \<^verbatim>\<open>toFileStat\<close> for an
  entry of the listing, with \<open>siblings\<close> the number of entries of that listing.
\<close>

lemma set_coalesce_Cons:
  "set (coalesce (None # rs)) = set (coalesce rs)"
  "set (coalesce (Some x # rs)) = insert x (set (coalesce rs))"
  by (simp_all add: coalesce_def)

lemma toFileStat_entries_children:
  assumes "toFileStat_entries n L E R provider resource entries len rm rec w = Some (rs, w')"
  shows "\<forall>child \<in> set (coalesce rs).
           \<exists>name type childStat wa wb.
             (name, type) \<in> set entries \<and>
             toFileStat n L E R provider (joinPath R resource name) childStat (Some len) rm rec wa =
               Some (child, wb)"
  using assms
proof (induction entries arbitrary: rs w w')
  case Nil
  then have "rs = []" by simp
  then show ?case by (simp add: coalesce_def)
next
  case (Cons e entries)
  obtain name type where e: "e = (name, type)" by (cases e)
  define st where "st = (if rm then stat provider (joinPath R resource name) w
            else (Inr \<lparr> stat_type = type, stat_mtime = None, stat_ctime = None,
                        stat_size = None \<rparr>, w))"
  obtain r w1 where st: "st = (r, w1)" by (cases st)
  from Cons.prems have run:
    "(case st of
        (Inl e, w1) \<Rightarrow>
          (case toFileStat_entries n L E R provider resource entries len rm rec w1 of
             None \<Rightarrow> None
           | Some (rs, w2) \<Rightarrow> Some (None # rs, w2))
      | (Inr childStat, w1) \<Rightarrow>
          (case toFileStat n L E R provider (joinPath R resource name) childStat (Some len)
                  rm rec w1 of
             None \<Rightarrow> None
           | Some (child, w2) \<Rightarrow>
               (case toFileStat_entries n L E R provider resource entries len rm rec w2 of
                  None \<Rightarrow> None
                | Some (rs, w3) \<Rightarrow> Some (Some child # rs, w3)))) = Some (rs, w')"
    unfolding e st_def by (simp only: toFileStat_entries.simps)
  show ?case
  proof (cases r)
    case (Inl err)
    from run have run1:
      "(case toFileStat_entries n L E R provider resource entries len rm rec w1 of
             None \<Rightarrow> None
           | Some (rs, w2) \<Rightarrow> Some (None # rs, w2)) = Some (rs, w')"
      unfolding st Inl by (simp only: prod.case sum.case)
    then obtain rs' where
      rest: "toFileStat_entries n L E R provider resource entries len rm rec w1 = Some (rs', w')"
      and rs: "rs = None # rs'"
      by (cases "toFileStat_entries n L E R provider resource entries len rm rec w1") auto
    show ?thesis
    proof
      fix child
      assume "child \<in> set (coalesce rs)"
      then have "child \<in> set (coalesce rs')" by (simp add: rs set_coalesce_Cons)
      with Cons.IH [OF rest] obtain name' type' childStat wa wb where
        "(name', type') \<in> set entries"
        "toFileStat n L E R provider (joinPath R resource name') childStat (Some len) rm rec wa =
           Some (child, wb)"
        by blast
      then show "\<exists>name type childStat wa wb.
             (name, type) \<in> set (e # entries) \<and>
             toFileStat n L E R provider (joinPath R resource name) childStat (Some len) rm rec wa =
               Some (child, wb)"
        by (intro exI [of _ name'] exI [of _ type'] exI [of _ childStat] exI [of _ wa]
            exI [of _ wb]) simp
    qed
  next
    case (Inr childStat)
    from run have run1:
      "(case toFileStat n L E R provider (joinPath R resource name) childStat (Some len)
                  rm rec w1 of
             None \<Rightarrow> None
           | Some (child, w2) \<Rightarrow>
               (case toFileStat_entries n L E R provider resource entries len rm rec w2 of
                  None \<Rightarrow> None
                | Some (rs, w3) \<Rightarrow> Some (Some child # rs, w3))) = Some (rs, w')"
      unfolding st Inr by (simp only: prod.case sum.case)
    then obtain c w2 where
      c: "toFileStat n L E R provider (joinPath R resource name) childStat (Some len) rm rec w1 =
            Some (c, w2)"
      by (cases "toFileStat n L E R provider (joinPath R resource name) childStat (Some len)
                  rm rec w1") auto
    from run1 have run2:
      "(case toFileStat_entries n L E R provider resource entries len rm rec w2 of
                  None \<Rightarrow> None
                | Some (rs, w3) \<Rightarrow> Some (Some c # rs, w3)) = Some (rs, w')"
      unfolding c by (simp only: option.case prod.case)
    then obtain rs' where
      rest: "toFileStat_entries n L E R provider resource entries len rm rec w2 = Some (rs', w')"
      and rs: "rs = Some c # rs'"
      by (cases "toFileStat_entries n L E R provider resource entries len rm rec w2") auto
    show ?thesis
    proof
      fix child
      assume "child \<in> set (coalesce rs)"
      then consider "child = c" | "child \<in> set (coalesce rs')"
        by (auto simp: rs set_coalesce_Cons)
      then show "\<exists>name type childStat wa wb.
             (name, type) \<in> set (e # entries) \<and>
             toFileStat n L E R provider (joinPath R resource name) childStat (Some len) rm rec wa =
               Some (child, wb)"
      proof cases
        case 1
        with c show ?thesis
          by (intro exI [of _ name] exI [of _ type] exI [of _ childStat] exI [of _ w1]
              exI [of _ w2]) (simp add: e)
      next
        case 2
        with Cons.IH [OF rest] obtain name' type' childStat' wa wb where
          "(name', type') \<in> set entries"
          "toFileStat n L E R provider (joinPath R resource name') childStat' (Some len) rm rec wa =
             Some (child, wb)"
          by blast
        then show ?thesis
          by (intro exI [of _ name'] exI [of _ type'] exI [of _ childStat'] exI [of _ wa]
              exI [of _ wb]) simp
      qed
    qed
  qed
qed

lemma toFileStat_children_siblings:
  assumes run: "toFileStat (Suc n) L E R provider res st siblings rm rec w = Some (fileStat, w')"
    and rd: "readdir provider res w = (Inr entries, w1)"
    and cs: "fs_children fileStat = Some cs"
  shows "\<forall>child \<in> set cs.
           \<exists>name type childStat wa wb.
             (name, type) \<in> set entries \<and>
             toFileStat n L E R provider (joinPath R res name) childStat
               (Some (length entries)) rm rec wa = Some (child, wb)"
proof -
  define f where "f = IFileStat res (L res)
            (File \<in> stat_type st) (Directory \<in> stat_type st) (SymbolicLink \<in> stat_type st)
            (stat_mtime st) (stat_ctime st) (stat_size st)
            (E (stat_mtime st) (stat_size st)) None"
  have f_children: "fs_children f = None" by (simp add: f_def)
  from run have run1:
    "(if fs_isDirectory f \<and> rec f siblings
      then (case toFileStat_entries n L E R provider res entries (length entries) rm rec w1 of
              None \<Rightarrow> None
            | Some (resolvedEntries, w2) \<Rightarrow> Some (with_children f (coalesce resolvedEntries), w2))
      else Some (f, w)) = Some (fileStat, w')"
    unfolding f_def by (simp only: toFileStat.simps Let_def rd prod.case sum.case)
  show ?thesis
  proof (cases "fs_isDirectory f \<and> rec f siblings")
    case False
    with run1 have "fileStat = f" by simp
    with cs f_children show ?thesis by simp
  next
    case True
    with run1 have run2:
      "(case toFileStat_entries n L E R provider res entries (length entries) rm rec w1 of
              None \<Rightarrow> None
            | Some (resolvedEntries, w2) \<Rightarrow> Some (with_children f (coalesce resolvedEntries), w2)) =
       Some (fileStat, w')"
      by (simp only: simp_thms if_True)
    then obtain rs where
      ent: "toFileStat_entries n L E R provider res entries (length entries) rm rec w1 = Some (rs, w')"
      and fs: "fileStat = with_children f (coalesce rs)"
      by (cases "toFileStat_entries n L E R provider res entries (length entries) rm rec w1") auto
    from fs cs have "cs = coalesce rs" by (simp add: with_children_def)
    with toFileStat_entries_children [OF ent] show ?thesis by simp
  qed
qed

text \<open>
  Fuel. The traversal returns when the fuel exceeds the depth of the tree: \<open>depth\<close> is a
  measure on resources that is smaller for every entry of a listing than for the listed
  directory, in the states \<open>ok\<close> that the provider can reach. More fuel does not change a
  result.
\<close>

lemma toFileStat_entries_enough_fuel:
  assumes inv_readdir: "\<And>res w r w1. ok w \<Longrightarrow> readdir provider res w = (r, w1) \<Longrightarrow> ok w1"
    and inv_stat: "\<And>res w r w1. ok w \<Longrightarrow> stat provider res w = (r, w1) \<Longrightarrow> ok w1"
    and IH: "\<And>res st siblings w. ok w \<Longrightarrow> depth res < n \<Longrightarrow>
               \<exists>fileStat w'. toFileStat n L E R provider res st siblings rm rec w = Some (fileStat, w') \<and> ok w'"
  shows "ok w \<Longrightarrow> \<forall>(name, type) \<in> set entries. depth (joinPath R res name) < n \<Longrightarrow>
         \<exists>rs w'. toFileStat_entries n L E R provider res entries len rm rec w = Some (rs, w') \<and> ok w'"
proof (induction entries arbitrary: w)
  case Nil
  then show ?case by simp
next
  case (Cons e entries)
  obtain name type where e: "e = (name, type)" by (cases e)
  obtain x w1 where c: "childStat_of provider R rm res name type w = (x, w1)"
    by (cases "childStat_of provider R rm res name type w")
  from c Cons.prems(1) inv_stat have w1: "ok w1"
    by (auto simp: childStat_of_def split: if_splits)
  from Cons.prems(2) have rest: "\<forall>(name, type) \<in> set entries. depth (joinPath R res name) < n"
    and d: "depth (joinPath R res name) < n" by (auto simp: e)
  show ?case
  proof (cases x)
    case (Inl err)
    from Cons.IH [OF w1 rest] obtain rs w' where
      "toFileStat_entries n L E R provider res entries len rm rec w1 = Some (rs, w')" "ok w'"
      by blast
    with c Inl show ?thesis by (simp add: e toFileStat_entries_Cons)
  next
    case (Inr st')
    from IH [OF w1 d] obtain child w2 where
      ch: "toFileStat n L E R provider (joinPath R res name) st' (Some len) rm rec w1 = Some (child, w2)"
      and w2: "ok w2" by blast
    from Cons.IH [OF w2 rest] obtain rs w' where
      "toFileStat_entries n L E R provider res entries len rm rec w2 = Some (rs, w')" "ok w'"
      by blast
    with c Inr ch show ?thesis by (simp add: e toFileStat_entries_Cons)
  qed
qed

lemma toFileStat_enough_fuel:
  assumes inv_readdir: "\<And>res w r w1. ok w \<Longrightarrow> readdir provider res w = (r, w1) \<Longrightarrow> ok w1"
    and inv_stat: "\<And>res w r w1. ok w \<Longrightarrow> stat provider res w = (r, w1) \<Longrightarrow> ok w1"
    and deeper: "\<And>res w entries w1 name type.
                   ok w \<Longrightarrow> readdir provider res w = (Inr entries, w1) \<Longrightarrow>
                   (name, type) \<in> set entries \<Longrightarrow> depth (joinPath R res name) < depth res"
  shows "ok w \<Longrightarrow> depth res < n \<Longrightarrow>
         \<exists>fileStat w'. toFileStat n L E R provider res st siblings rm rec w = Some (fileStat, w') \<and> ok w'"
proof (induction n arbitrary: res st siblings w)
  case 0
  then show ?case by simp
next
  case (Suc n)
  show ?case
  proof (cases "Directory \<in> stat_type st \<and> rec (convert L E res st) siblings")
    case False
    from Suc.prems(1) show ?thesis by (simp add: toFileStat_Suc_unlisted [where rec = rec and L = L and E = E, OF False])
  next
    case True
    obtain x w1 where rd: "readdir provider res w = (x, w1)" by (cases "readdir provider res w")
    from inv_readdir [OF Suc.prems(1) rd] have w1: "ok w1" .
    show ?thesis
    proof (cases x)
      case (Inl err)
      with rd w1 show ?thesis by (simp add: toFileStat_Suc_listed [where rec = rec and L = L and E = E, OF True])
    next
      case (Inr entries)
      have "\<forall>(name, type) \<in> set entries. depth (joinPath R res name) < n"
      proof (clarify)
        fix name type assume "(name, type) \<in> set entries"
        from deeper [OF Suc.prems(1) rd [unfolded Inr] this] Suc.prems(2)
        show "depth (joinPath R res name) < n" by simp
      qed
      with inv_readdir inv_stat Suc.IH w1
      have "\<exists>rs w'. toFileStat_entries n L E R provider res entries (length entries) rm rec w1 =
                       Some (rs, w') \<and> ok w'"
        by (rule toFileStat_entries_enough_fuel [where ok = ok and depth = depth])
      then obtain rs w' where
        "toFileStat_entries n L E R provider res entries (length entries) rm rec w1 = Some (rs, w')"
        "ok w'" by blast
      with rd Inr show ?thesis by (simp add: toFileStat_Suc_listed [where rec = rec and L = L and E = E, OF True])
    qed
  qed
qed

lemma doResolveFile_returns:
  assumes inv_readdir: "\<And>res w r w1. ok w \<Longrightarrow> readdir provider res w = (r, w1) \<Longrightarrow> ok w1"
    and inv_stat: "\<And>res w r w1. ok w \<Longrightarrow> stat provider res w = (r, w1) \<Longrightarrow> ok w1"
    and deeper: "\<And>res w entries w1 name type.
                   ok w \<Longrightarrow> readdir provider res w = (Inr entries, w1) \<Longrightarrow>
                   (name, type) \<in> set entries \<Longrightarrow> depth (joinPath R res name) < depth res"
    and wp: "withProvider resource s = (Inr provider, s1)"
    and w: "ok (world s1)"
    and fuel: "depth resource < fuel"
  shows "\<exists>r. doResolveFile fuel L E R resource options s = Some r"
proof -
  obtain x w1 where st: "stat provider resource (world s1) = (x, w1)"
    by (cases "stat provider resource (world s1)")
  from inv_stat [OF w st] have w1: "ok w1" .
  show ?thesis
  proof (cases x)
    case (Inl err)
    with wp st show ?thesis by (simp add: doResolveFile_def)
  next
    case (Inr st0)
    from inv_readdir inv_stat deeper w1 fuel
    have "\<exists>fileStat w'. toFileStat fuel L E R provider resource st0 None
         (options_resolveMetadata options)
         (recurse resource (options_resolveTo options)
            (options_resolveSingleChildDescendants options)) w1 = Some (fileStat, w') \<and> ok w'"
      by (rule toFileStat_enough_fuel [where ok = ok and depth = depth])
    then obtain fileStat w' where
      "toFileStat fuel L E R provider resource st0 None (options_resolveMetadata options)
         (recurse resource (options_resolveTo options)
            (options_resolveSingleChildDescendants options)) w1 = Some (fileStat, w')"
      by blast
    with wp st Inr show ?thesis by (simp add: doResolveFile_def)
  qed
qed

lemma toFileStat_entries_more_fuel:
  assumes IH: "\<And>res st siblings w r.
                 toFileStat n L E R provider res st siblings rm rec w = Some r \<Longrightarrow>
                 toFileStat (Suc n) L E R provider res st siblings rm rec w = Some r"
  shows "toFileStat_entries n L E R provider res entries len rm rec w = Some r \<Longrightarrow>
         toFileStat_entries (Suc n) L E R provider res entries len rm rec w = Some r"
proof (induction entries arbitrary: w r)
  case Nil
  then show ?case by simp
next
  case (Cons e entries)
  obtain name type where e: "e = (name, type)" by (cases e)
  obtain x w1 where c: "childStat_of provider R rm res name type w = (x, w1)"
    by (cases "childStat_of provider R rm res name type w")
  show ?case
  proof (cases x)
    case (Inl err)
    with Cons.prems c e obtain rs w2 where
      rest: "toFileStat_entries n L E R provider res entries len rm rec w1 = Some (rs, w2)"
      and r: "r = (None # rs, w2)"
      by (auto simp: toFileStat_entries_Cons split: option.splits)
    from Cons.IH [OF rest] c Inl r show ?thesis by (simp add: e toFileStat_entries_Cons)
  next
    case (Inr st')
    with Cons.prems c e obtain child w2 rs w3 where
      ch: "toFileStat n L E R provider (joinPath R res name) st' (Some len) rm rec w1 =
             Some (child, w2)"
      and rest: "toFileStat_entries n L E R provider res entries len rm rec w2 = Some (rs, w3)"
      and r: "r = (Some child # rs, w3)"
      by (auto simp: toFileStat_entries_Cons split: option.splits)
    from IH [OF ch] Cons.IH [OF rest] c Inr r show ?thesis
      by (simp add: e toFileStat_entries_Cons)
  qed
qed

lemma toFileStat_more_fuel:
  "toFileStat n L E R provider res st siblings rm rec w = Some r \<Longrightarrow>
   toFileStat (Suc n) L E R provider res st siblings rm rec w = Some r"
proof (induction n arbitrary: res st siblings w r)
  case 0
  then show ?case by simp
next
  case (Suc n)
  show ?case
  proof (cases "Directory \<in> stat_type st \<and> rec (convert L E res st) siblings")
    case False
    with Suc.prems show ?thesis by (simp add: toFileStat_Suc_unlisted [where rec = rec and L = L and E = E, OF False])
  next
    case True
    obtain x w1 where rd: "readdir provider res w = (x, w1)" by (cases "readdir provider res w")
    show ?thesis
    proof (cases x)
      case (Inl err)
      with rd Suc.prems show ?thesis by (simp add: toFileStat_Suc_listed [where rec = rec and L = L and E = E, OF True])
    next
      case (Inr entries)
      from Suc.prems rd Inr obtain rs w2 where
        ent: "toFileStat_entries n L E R provider res entries (length entries) rm rec w1 =
                Some (rs, w2)"
        and r: "r = (with_children (convert L E res st) (coalesce rs), w2)"
        by (auto simp: toFileStat_Suc_listed [where rec = rec and L = L and E = E, OF True] split: option.splits)
      from toFileStat_entries_more_fuel [of n L E R provider rm rec, OF Suc.IH ent]
      have "toFileStat_entries (Suc n) L E R provider res entries (length entries) rm rec w1 =
              Some (rs, w2)" .
      with rd Inr r show ?thesis by (simp add: toFileStat_Suc_listed [where rec = rec and L = L and E = E, OF True])
    qed
  qed
qed

lemma doResolveFile_more_fuel:
  "doResolveFile fuel L E R resource options s = Some r \<Longrightarrow>
   doResolveFile (fuel + k) L E R resource options s = Some r"
proof (induction k)
  case 0
  then show ?case by simp
next
  case (Suc k)
  then have "doResolveFile (fuel + k) L E R resource options s = Some r" by simp
  then show ?case
    by (auto simp: doResolveFile_def dest: toFileStat_more_fuel
        split: prod.splits sum.splits option.splits)
qed

lemma example_tree_deeper:
  assumes "(p, e) \<in> set example_tree" and "p \<noteq> path_dirname p"
  shows "example_depth (u\<lparr>path := path_join (path_dirname p) (path_basename p)\<rparr>) <
         example_depth (u\<lparr>path := path_dirname p\<rparr>)"
proof -
  from assms(1) have "p \<in> {''/'', ''/a'', ''/a/b'', ''/a/b/f'', ''/a/b/g'', ''/c'', ''/c/h''}"
    by (auto simp: example_tree_def)
  then consider "p = ''/''" | "p = ''/a''" | "p = ''/a/b''" | "p = ''/a/b/f''" | "p = ''/a/b/g''"
    | "p = ''/c''" | "p = ''/c/h''" by blast
  then show ?thesis
  proof cases
    case 1
    with assms(2) show ?thesis by (simp add: path_dirname_def)
  next
    case 2
    then show ?thesis
      by (simp add: example_depth_def path_dirname_def path_basename_def path_join_def)
  next
    case 3
    then show ?thesis
      by (simp add: example_depth_def path_dirname_def path_basename_def path_join_def)
  next
    case 4
    then show ?thesis
      by (simp add: example_depth_def path_dirname_def path_basename_def path_join_def)
  next
    case 5
    then show ?thesis
      by (simp add: example_depth_def path_dirname_def path_basename_def path_join_def)
  next
    case 6
    then show ?thesis
      by (simp add: example_depth_def path_dirname_def path_basename_def path_join_def)
  next
    case 7
    then show ?thesis
      by (simp add: example_depth_def path_dirname_def path_basename_def path_join_def)
  qed
qed

lemma doResolveFile_example_returns:
  "\<exists>r. doResolveFile 4 L E example_resources (mem_uri ''/'') options
         (example_service example_tree) = Some r"
proof (rule doResolveFile_returns [where ok = "\<lambda>w. w = example_tree" and depth = example_depth
      and provider = example_provider])
  show "withProvider (mem_uri ''/'') (example_service example_tree) =
          (Inr example_provider, example_service example_tree)"
    by (rule withProvider_mem)
  show "world (example_service example_tree) = example_tree" by (simp add: example_service_world)
  show "example_depth (mem_uri ''/'') < 4"
    by (simp add: example_depth_def uri_fields path_join_def)
next
  fix res :: uri and w r w1
  assume "w = example_tree" "readdir example_provider res w = (r, w1)"
  then show "w1 = example_tree" by (auto simp: memProvider_def)
next
  fix res :: uri and w r w1
  assume "w = example_tree" "stat example_provider res w = (r, w1)"
  then show "w1 = example_tree" by (auto simp: memProvider_stat split: option.splits)
next
  fix res :: uri and w entries w1 name type
  assume w: "w = example_tree" and rd: "readdir example_provider res w = (Inr entries, w1)"
    and mem: "(name, type) \<in> set entries"
  from rd have "entries = map (\<lambda>(p, t, bytes). (path_basename p, t))
                   (filter (\<lambda>(p, t, bytes). p \<noteq> path res \<and> path_dirname p = path res) w)"
    by (auto simp: memProvider_def)
  with mem w obtain p b where p: "(p, type, b) \<in> set example_tree" "p \<noteq> path res"
    "path_dirname p = path res" "name = path_basename p"
    by auto
  from example_tree_deeper [of p "(type, b)" res] p
  show "example_depth (joinPath example_resources res name) < example_depth res"
    by (simp add: example_resources_def)
qed

text \<open>
  What a spying provider records: a call of \<^verbatim>\<open>toFileStat\<close> that returns has appended the
  resource of its node to the record, followed by what the calls for the entries
  appended, when the node is a directory that the callback accepts; otherwise it has left
  the record as it was.
\<close>

lemma spy_readdir:
  "readdir (spy p) u (w, log) = (case readdir p u w of (r, w') \<Rightarrow> (r, (w', log @ [u])))"
  by (simp add: spy_def)

lemma spy_stat:
  "stat (spy p) u (w, log) = (case stat p u w of (r, w') \<Rightarrow> (r, (w', log)))"
  by (simp add: spy_def)

lemma spy_childStat:
  "childStat_of (spy p) R rm res name type (w, log) = (x, (w1, log1)) \<Longrightarrow> log1 = log"
  by (auto simp: childStat_of_def spy_stat split: if_splits prod.splits)

lemma toFileStat_entries_spy_grows:
  assumes IH: "\<And>res st siblings w log fs w' log'.
                 toFileStat n L E R (spy p) res st siblings rm rec (w, log) = Some (fs, (w', log')) \<Longrightarrow>
                 \<exists>more. log' = log @ more"
  shows "toFileStat_entries n L E R (spy p) res entries len rm rec (w, log) = Some (rs, (w', log')) \<Longrightarrow>
         \<exists>more. log' = log @ more"
proof (induction entries arbitrary: w log rs)
  case Nil
  then show ?case by simp
next
  case (Cons e entries)
  obtain name type where e: "e = (name, type)" by (cases e)
  obtain x w1 log1 where c: "childStat_of (spy p) R rm res name type (w, log) = (x, (w1, log1))"
    by (cases "childStat_of (spy p) R rm res name type (w, log)") auto
  from spy_childStat [OF c] have log1: "log1 = log" .
  show ?case
  proof (cases x)
    case (Inl err)
    with Cons.prems c e obtain rs' where
      "toFileStat_entries n L E R (spy p) res entries len rm rec (w1, log1) = Some (rs', (w', log'))"
      by (auto simp: toFileStat_entries_Cons split: option.splits)
    from Cons.IH [OF this] log1 show ?thesis by simp
  next
    case (Inr st')
    with Cons.prems c e obtain child w2 log2 rs' where
      ch: "toFileStat n L E R (spy p) (joinPath R res name) st' (Some len) rm rec (w1, log1) =
             Some (child, (w2, log2))"
      and rest: "toFileStat_entries n L E R (spy p) res entries len rm rec (w2, log2) =
             Some (rs', (w', log'))"
      by (auto simp: toFileStat_entries_Cons split: option.splits)
    from IH [OF ch] Cons.IH [OF rest] log1 show ?thesis by auto
  qed
qed

lemma toFileStat_spy_listed:
  "toFileStat n L E R (spy p) res st siblings rm rec (w, log) = Some (fs, (w', log')) \<Longrightarrow>
   (if Directory \<in> stat_type st \<and> rec (convert L E res st) siblings
    then \<exists>more. log' = log @ res # more else log' = log)"
proof (induction n arbitrary: res st siblings w log fs w' log')
  case 0
  then show ?case by simp
next
  case (Suc n)
  have grows: "\<exists>more. log' = log @ more"
    if "toFileStat n L E R (spy p) res st siblings rm rec (w, log) = Some (fs, (w', log'))"
    for res st siblings w log fs w' log'
    using Suc.IH [OF that] by (auto split: if_splits)
  show ?case
  proof (cases "Directory \<in> stat_type st \<and> rec (convert L E res st) siblings")
    case False
    with Suc.prems show ?thesis
      by (simp add: toFileStat_Suc_unlisted [where rec = rec and L = L and E = E, OF False])
  next
    case True
    obtain x w1 where rd: "readdir p res w = (x, w1)" by (cases "readdir p res w")
    show ?thesis
    proof (cases x)
      case (Inl err)
      with rd Suc.prems True show ?thesis
        by (auto simp: toFileStat_Suc_listed [where rec = rec and L = L and E = E, OF True]
            spy_readdir)
    next
      case (Inr entries)
      with rd Suc.prems obtain rs where
        "toFileStat_entries n L E R (spy p) res entries (length entries) rm rec (w1, log @ [res]) =
           Some (rs, (w', log'))"
        by (auto simp: toFileStat_Suc_listed [where rec = rec and L = L and E = E, OF True]
            spy_readdir split: option.splits)
      from toFileStat_entries_spy_grows [of n L E R p rm rec, OF grows this] True
      show ?thesis by auto
    qed
  qed
qed

text \<open>
  The traversal of the example tree with the spying provider: the result is the same,
  and \<^verbatim>\<open>readdir\<close> has been invoked on the root, on \<open>/a\<close> and on \<open>/a/b\<close>, in this order, and
  not on \<open>/c\<close>.
\<close>

lemma withProvider_spy:
  "withProvider (mem_uri ''/'') example_spy_service =
     (Inr (spy example_provider), example_spy_service)"
  by (simp add: withProvider_def isAbsolutePath_def mem_uri_def bind_io_def
      activateProvider_def example_spy_service_def Let_def)

lemma example_spy_calls:
  "stat (spy example_provider) (mem_uri ''/'') (example_tree, log) =
     (Inr \<lparr> stat_type = {Directory}, stat_mtime = Some 2, stat_ctime = Some 1,
            stat_size = Some 0 \<rparr>, (example_tree, log))"
  "readdir (spy example_provider) (mem_uri ''/'') (example_tree, log) =
     (Inr [(''a'', {Directory}), (''c'', {Directory})], (example_tree, log @ [mem_uri ''/'']))"
  "readdir (spy example_provider) (mem_uri ''/a'') (example_tree, log) =
     (Inr [(''b'', {Directory})], (example_tree, log @ [mem_uri ''/a'']))"
  "readdir (spy example_provider) (mem_uri ''/a/b'') (example_tree, log) =
     (Inr [(''f'', {File}), (''g'', {File})], (example_tree, log @ [mem_uri ''/a/b'']))"
  by (simp_all add: spy_stat spy_readdir example_stat_root example_readdir)

lemma example_spy_subtree_b:
  "toFileStat (Suc (Suc n)) example_label example_etag_of example_resources (spy example_provider)
     (mem_uri ''/a/b'') (example_type_only {Directory}) (Some (Suc 0)) False example_recurse
     (example_tree, log) =
   Some (example_node ''/a/b'' ''b'' True
           (Some [example_node ''/a/b/f'' ''f'' False None,
                  example_node ''/a/b/g'' ''g'' False None]),
         (example_tree, log @ [mem_uri ''/a/b'']))"
  by (simp add: toFileStat_Suc toFileStat_entries_Cons childStat_of_def example_spy_calls
      example_joinPath example_recurse_nodes)
     (simp add: example_convert with_children_def coalesce_def example_node_def
        path_basename_def)

lemma example_spy_subtree_a:
  "toFileStat (Suc (Suc (Suc n))) example_label example_etag_of example_resources
     (spy example_provider)
     (mem_uri ''/a'') (example_type_only {Directory}) siblings False example_recurse
     (example_tree, log) =
   Some (example_node ''/a'' ''a'' True
           (Some [example_node ''/a/b'' ''b'' True
                    (Some [example_node ''/a/b/f'' ''f'' False None,
                           example_node ''/a/b/g'' ''g'' False None])]),
         (example_tree, log @ [mem_uri ''/a'', mem_uri ''/a/b'']))"
  by (simp add: toFileStat_Suc [of "Suc (Suc n)"] toFileStat_entries_Cons childStat_of_def
      example_spy_calls example_joinPath example_recurse_nodes example_spy_subtree_b)
     (simp add: example_convert with_children_def coalesce_def example_node_def
        path_basename_def)

lemma example_spy_subtree_c:
  "siblings \<noteq> Some 1 \<Longrightarrow>
   toFileStat (Suc n) example_label example_etag_of example_resources (spy example_provider)
     (mem_uri ''/c'') (example_type_only {Directory}) siblings False example_recurse
     (example_tree, log) =
   Some (example_node ''/c'' ''c'' True None, (example_tree, log))"
  by (simp add: toFileStat_Suc example_recurse_nodes)
     (simp add: example_convert example_node_def path_basename_def)

lemma example_spy_root:
  "toFileStat (Suc (Suc (Suc (Suc n)))) example_label example_etag_of example_resources
     (spy example_provider) (mem_uri ''/'')
     \<lparr> stat_type = {Directory}, stat_mtime = Some 2, stat_ctime = Some 1, stat_size = Some 0 \<rparr>
     None False example_recurse (example_tree, log) =
   Some (example_result, (example_tree, log @ [mem_uri ''/'', mem_uri ''/a'', mem_uri ''/a/b'']))"
  by (simp add: toFileStat_Suc [of "Suc (Suc (Suc n))"] toFileStat_entries_Cons childStat_of_def
      example_spy_calls example_joinPath example_recurse_nodes example_spy_subtree_a
      example_spy_subtree_c)
     (simp add: convert_def with_children_def coalesce_def example_result_def
        example_label_def example_etag_of_def uri_fields path_basename_def)

lemma doResolveFile_example_spy:
  "doResolveFile 4 example_label example_etag_of example_resources (mem_uri ''/'')
     (Some example_options) example_spy_service =
   Some (Inr example_result,
         example_spy_service
           \<lparr>world := (example_tree, [mem_uri ''/'', mem_uri ''/a'', mem_uri ''/a/b''])\<rparr>)"
proof -
  have four: "(4::nat) = Suc (Suc (Suc (Suc 0)))" by simp
  have w: "world example_spy_service = (example_tree, [])" by (simp add: example_spy_service_def)
  show ?thesis
    unfolding doResolveFile_def four
    by (simp add: withProvider_spy w example_spy_calls example_options_fields example_spy_root)
qed

end
